theory Spec2Isabelle
  imports Main "HOL-Library.Char_ord" "HOL-Library.List_Lexorder"
begin

section \<open>MiniHub: the source-control core of the server\<close>

text \<open>
  The server keeps four MongoDB collections (projects, branches, files, commits) behind
  Mongoose models and Express routes. The embedding keeps each collection as a list in
  insertion order (the natural order of an unsorted \<^verbatim>\<open>find\<close>), each document as a record,
  and each route as a function from the store and the request to a response and the new
  store. Strings are byte strings; an ObjectId is a number taken from a counter of the store;
  \<^verbatim>\<open>createdAt\<close> is read from a logical clock that ticks at every insertion of a commit.
  The SHA-1 digest that \<^verbatim>\<open>generateHash\<close> takes over the project, the message, the author, the
  time and a random number is computed by Node's crypto library; it is an argument of the
  functions that reach it. A request is served as a whole, one after the other. A document
  that is stored passes the \<^verbatim>\<open>required\<close> validators of its schema, as every document that
  \<^verbatim>\<open>save()\<close> has stored does; saving it again validates the paths that were modified.
\<close>

subsection \<open>Strings as JavaScript handles them\<close>

definition isSpace :: "char \<Rightarrow> bool" where
  "isSpace c \<longleftrightarrow> c \<in> set [CHR '' '', CHR 0x09, CHR 0x0A, CHR 0x0B, CHR 0x0C, CHR 0x0D]"

text \<open>\<^verbatim>\<open>String.prototype.trim\<close>, on the ASCII white space.\<close>

definition trim :: "string \<Rightarrow> string" where
  "trim s = rev (dropWhile isSpace (rev (dropWhile isSpace s)))"

text \<open>\<^verbatim>\<open>str.split(sep)\<close> for a separator of one character: never an empty array.\<close>

fun js_split :: "char \<Rightarrow> string \<Rightarrow> string list" where
  "js_split sep [] = [[]]"
| "js_split sep (c # cs) =
     (if c = sep then [] # js_split sep cs
      else (case js_split sep cs of [] \<Rightarrow> [[c]] | w # ws \<Rightarrow> (c # w) # ws))"

fun js_join :: "string \<Rightarrow> string list \<Rightarrow> string" where
  "js_join sep [] = []"
| "js_join sep [x] = x"
| "js_join sep (x # y # ys) = x @ sep @ js_join sep (y # ys)"

text \<open>\<^verbatim>\<open>content.split('\n').length\<close>\<close>

definition lineCount :: "string \<Rightarrow> nat" where
  "lineCount content = length (js_split (CHR 0x0A) content)"

text \<open>\<^verbatim>\<open>toLowerCase\<close> on one character: the 26 capital letters change.\<close>

definition toLower :: "char \<Rightarrow> char" where
  "toLower c =
     (case map_of (zip ''ABCDEFGHIJKLMNOPQRSTUVWXYZ'' ''abcdefghijklmnopqrstuvwxyz'') c of
        None \<Rightarrow> c
      | Some l \<Rightarrow> l)"

definition isAlnum :: "char \<Rightarrow> bool" where
  "isAlnum c \<longleftrightarrow> (CHR ''a'' \<le> c \<and> c \<le> CHR ''z'') \<or> (CHR ''A'' \<le> c \<and> c \<le> CHR ''Z'')
     \<or> (CHR ''0'' \<le> c \<and> c \<le> CHR ''9'')"

text \<open>
  The filter \<^verbatim>\<open>{ $regex: `^${commitHash}`, $options: 'i' }\<close>. For a \<^verbatim>\<open>commitHash\<close> of
  letters and digits, which have no special meaning in a regular expression, the pattern
  matches the strings that start with \<^verbatim>\<open>commitHash\<close> up to the case of the letters. A
  \<^verbatim>\<open>commitHash\<close> with other characters is outside of what this function describes.
\<close>

definition regexPrefixI :: "string \<Rightarrow> string \<Rightarrow> bool" where
  "regexPrefixI commitHash h \<longleftrightarrow>
     length commitHash \<le> length h
     \<and> map toLower (take (length commitHash) h) = map toLower commitHash"

subsection \<open>Documents\<close>

type_synonym oid = nat

datatype role = viewer | editor | admin

record collaborator =
  col_user :: oid
  col_role :: role

record Project =
  p_id :: oid
  p_title :: string
  p_description :: string
  p_readme :: string
  p_tags :: "string list"
  p_owner :: oid
  p_collaborators :: "collaborator list"
  p_isPublic :: bool

datatype file_type = TFile | TDirectory

text \<open>The strings of the enum \<^verbatim>\<open>['file', 'directory']\<close>, which a sort on \<^verbatim>\<open>type\<close> compares.\<close>

fun type_str :: "file_type \<Rightarrow> string" where
  "type_str TFile = ''file''"
| "type_str TDirectory = ''directory''"

text \<open>
  A File document. An \<^verbatim>\<open>extension\<close> that was never set is \<open>None\<close>. The field
  \<^verbatim>\<open>language\<close>, which \<^verbatim>\<open>detectLanguage\<close> reads off a table of extensions and nothing
  here reads (it is \<^verbatim>\<open>'text'\<close>, \<^verbatim>\<open>'Text'\<close> or an entry of the table, always within
  its \<^verbatim>\<open>maxlength\<close> of 50), is left out.
\<close>

record File =
  f_id :: oid
  f_project :: oid
  f_path :: string
  f_name :: string
  f_content :: string
  f_type :: file_type
  f_extension :: "string option"
  f_size :: nat
  f_branch :: string
  f_lastCommit :: "oid option"
  f_isDeleted :: bool
  f_parentDirectory :: "oid option"

datatype action = added | modified | deleted | renamed

record change =
  ch_file :: oid
  ch_action :: action
  ch_filePath :: string
  ch_oldPath :: "string option"
  linesAdded :: nat
  linesDeleted :: nat

record commit_stats =
  filesChanged :: nat
  totalLinesAdded :: nat
  totalLinesDeleted :: nat

text \<open>
  A Commit document. An unset \<^verbatim>\<open>hash\<close> is the empty string: \<^verbatim>\<open>!this.hash\<close> holds of both,
  and so does the failure of the validator \<^verbatim>\<open>required\<close>.
\<close>

record Commit =
  c_id :: oid
  c_project :: oid
  c_hash :: string
  c_message :: string
  c_author :: oid
  c_branch :: string
  c_parentCommits :: "oid list"
  c_changes :: "change list"
  c_stats :: commit_stats
  c_createdAt :: nat

record branch_stats =
  totalCommits :: nat
  commitsAhead :: nat
  commitsBehind :: nat
  lastActivity :: nat

text \<open>A Branch document, without its \<^verbatim>\<open>mergeSettings\<close>, which no route reads or writes.\<close>

record Branch =
  b_id :: oid
  b_project :: oid
  b_name :: string
  b_description :: "string option"
  b_isDefault :: bool
  b_isProtected :: bool
  b_creator :: oid
  b_lastCommit :: "oid option"
  b_parentBranch :: "oid option"
  b_stats :: branch_stats

record store =
  projects :: "Project list"
  branches :: "Branch list"
  files :: "File list"
  commits :: "Commit list"
  nextId :: nat
  clock :: nat

definition empty_store :: store where
  "empty_store = \<lparr>projects = [], branches = [], files = [], commits = [], nextId = 0, clock = 0\<rparr>"

text \<open>The responses of the routes that are not a success, with their HTTP status.\<close>

datatype error =
    ValidationFailed
  | ProjectNotFound
  | AccessDenied
  | FileNotFound
  | CommitNotFound
  | BranchAlreadyExists
  | SourceBranchNotFound
  | BranchNotFound
  | CannotDeleteDefault
  | CannotDeleteProtected
  | ServerError

fun status :: "error \<Rightarrow> nat" where
  "status ValidationFailed = 400"
| "status ProjectNotFound = 404"
| "status AccessDenied = 403"
| "status FileNotFound = 404"
| "status CommitNotFound = 404"
| "status BranchAlreadyExists = 400"
| "status SourceBranchNotFound = 404"
| "status BranchNotFound = 404"
| "status CannotDeleteDefault = 400"
| "status CannotDeleteProtected = 400"
| "status ServerError = 500"

subsection \<open>Project: permissions\<close>

fun roleHierarchy :: "role \<Rightarrow> nat" where
  "roleHierarchy viewer = 1"
| "roleHierarchy editor = 2"
| "roleHierarchy admin = 3"

definition hasPermission :: "Project \<Rightarrow> oid \<Rightarrow> role \<Rightarrow> bool" where
  "hasPermission this userId requiredRole =
     (if p_owner this = userId then True
      else (case find (\<lambda>col. col_user col = userId) (p_collaborators this) of
              None \<Rightarrow> False
            | Some collaborator \<Rightarrow>
                roleHierarchy (col_role collaborator) \<ge> roleHierarchy requiredRole))"

definition findProject :: "store \<Rightarrow> oid \<Rightarrow> Project option" where
  "findProject s projectId = find (\<lambda>p. p_id p = projectId) (projects s)"

text \<open>
  The guard of the reading routes:
  \<^verbatim>\<open>!project.isPublic && (!req.user || !project.hasPermission(req.user._id, 'viewer'))\<close>
  answers 403. \<^verbatim>\<open>reqUser\<close> is \<^verbatim>\<open>req.user\<close>, \<open>None\<close> when no middleware has set it.
\<close>

definition accessDenied :: "Project \<Rightarrow> oid option \<Rightarrow> bool" where
  "accessDenied project reqUser \<longleftrightarrow>
     \<not> p_isPublic project
     \<and> (case reqUser of None \<Rightarrow> True | Some u \<Rightarrow> \<not> hasPermission project u viewer)"

subsection \<open>Sorting a query\<close>

text \<open>
  \<^verbatim>\<open>.sort({...})\<close> on a query: an insertion sort by the order the sort document gives.
  MongoDB leaves the order of documents that compare equal open; the insertion sort keeps
  their natural order.
\<close>

fun insort_by :: "('a \<Rightarrow> 'a \<Rightarrow> bool) \<Rightarrow> 'a \<Rightarrow> 'a list \<Rightarrow> 'a list" where
  "insort_by le x [] = [x]"
| "insort_by le x (y # ys) = (if le x y then x # y # ys else y # insort_by le x ys)"

definition sort_by :: "('a \<Rightarrow> 'a \<Rightarrow> bool) \<Rightarrow> 'a list \<Rightarrow> 'a list" where
  "sort_by le xs = foldr (insort_by le) xs []"

text \<open>\<^verbatim>\<open>{ createdAt: -1 }\<close>\<close>

definition createdAtDesc :: "Commit \<Rightarrow> Commit \<Rightarrow> bool" where
  "createdAtDesc a b \<longleftrightarrow> c_createdAt a \<ge> c_createdAt b"

text \<open>\<^verbatim>\<open>{ type: -1, name: 1 }\<close>: \<^verbatim>\<open>type\<close> descending as a string, then \<^verbatim>\<open>name\<close> ascending.\<close>

definition typeDescNameAsc :: "File \<Rightarrow> File \<Rightarrow> bool" where
  "typeDescNameAsc a b \<longleftrightarrow>
     type_str (f_type a) > type_str (f_type b)
     \<or> (type_str (f_type a) = type_str (f_type b) \<and> f_name a \<le> f_name b)"

subsection \<open>models/File.js\<close>

text \<open>The virtual \<^verbatim>\<open>fullPath\<close>.\<close>

definition fullPath :: "File \<Rightarrow> string" where
  "fullPath this = (if f_path this = ''/'' then ''/'' @ f_name this
                    else f_path this @ ''/'' @ f_name this)"

text \<open>
  \<^verbatim>\<open>new File({...})\<close> as the routes call it: the setters of the schema trim \<^verbatim>\<open>path\<close> and
  \<^verbatim>\<open>name\<close> (and trim and lower-case \<^verbatim>\<open>extension\<close>); the fields that are not given take
  their defaults.
\<close>

definition newFile ::
  "oid \<Rightarrow> oid \<Rightarrow> string \<Rightarrow> string \<Rightarrow> string \<Rightarrow> file_type \<Rightarrow> string option \<Rightarrow> nat
     \<Rightarrow> string \<Rightarrow> oid option \<Rightarrow> File" where
  "newFile i projectId path name content type extension sz branch parentDirectory =
     \<lparr>f_id = i, f_project = projectId, f_path = trim path, f_name = trim name,
      f_content = content, f_type = type,
      f_extension = map_option (\<lambda>e. map toLower (trim e)) extension, f_size = sz,
      f_branch = branch, f_lastCommit = None, f_isDeleted = False,
      f_parentDirectory = parentDirectory\<rparr>"

text \<open>
  The validators of the File schema on a new document: \<^verbatim>\<open>required\<close> (a string that is
  required is not empty) and \<^verbatim>\<open>maxlength\<close>. Mongoose validates in its own pre-save hook,
  which runs before the hooks of the schema: an \<^verbatim>\<open>extension\<close> is validated when the
  constructor was given one, not when the hook below derives it.
\<close>

definition validFile :: "File \<Rightarrow> bool" where
  "validFile f \<longleftrightarrow>
     f_path f \<noteq> [] \<and> length (f_path f) \<le> 500
     \<and> f_name f \<noteq> [] \<and> length (f_name f) \<le> 255
     \<and> length (f_content f) \<le> 1000000
     \<and> (case f_extension f of None \<Rightarrow> True | Some e \<Rightarrow> length e \<le> 10)
     \<and> length (f_branch f) \<le> 100"

text \<open>
  The pre-save hook of a new document (\<^verbatim>\<open>name\<close> and \<^verbatim>\<open>content\<close> count as modified):
  the extension is the part of the name after its last dot, \<^verbatim>\<open>calculateSize\<close> takes the
  byte length of the content.
\<close>

definition file_pre_save :: "File \<Rightarrow> File" where
  "file_pre_save this =
     (let parts = js_split CHR ''.'' (f_name this);
          this = (if length parts > 1
                  then this\<lparr>f_extension := Some (map toLower (trim (map toLower (last parts))))\<rparr>
                  else this)
      in this\<lparr>f_size := length (f_content this)\<rparr>)"

text \<open>\<^verbatim>\<open>save()\<close> of a new File: \<open>None\<close> when the validation rejects it.\<close>

definition insertFile :: "store \<Rightarrow> File \<Rightarrow> (File \<times> store) option" where
  "insertFile s f =
     (if \<not> validFile f then None
      else (let f = file_pre_save f in Some (f, s\<lparr>files := files s @ [f]\<rparr>)))"

text \<open>\<^verbatim>\<open>save()\<close> of a File that is stored: the modified paths are written to it.\<close>

definition updateFile :: "store \<Rightarrow> oid \<Rightarrow> (File \<Rightarrow> File) \<Rightarrow> store" where
  "updateFile s i upd = s\<lparr>files := map (\<lambda>f. if f_id f = i then upd f else f) (files s)\<rparr>"

text \<open>
  \<^verbatim>\<open>File.findOne({ project, name, path, branch, isDeleted: false })\<close>: the first match in
  natural order. The query is cast by the schema, whose setters trim \<^verbatim>\<open>name\<close> and
  \<^verbatim>\<open>path\<close>.
\<close>

definition findLiveFile :: "store \<Rightarrow> oid \<Rightarrow> string \<Rightarrow> string \<Rightarrow> string \<Rightarrow> File option" where
  "findLiveFile s projectId fileName dirPath branch =
     find (\<lambda>f. f_project f = projectId \<and> f_name f = trim fileName \<and> f_path f = trim dirPath
                \<and> f_branch f = branch \<and> \<not> f_isDeleted f) (files s)"

subsection \<open>models/Commit.js\<close>

text \<open>
  \<^verbatim>\<open>generateHash\<close>: the first seven characters of the hexadecimal SHA-1 digest, which is
  the argument \<open>digest\<close>.
\<close>

definition generateHash :: "string \<Rightarrow> Commit \<Rightarrow> Commit" where
  "generateHash digest this = this\<lparr>c_hash := take 7 digest\<rparr>"

definition calculateStats :: "Commit \<Rightarrow> Commit" where
  "calculateStats this =
     this\<lparr>c_stats :=
       \<lparr>filesChanged = length (c_changes this),
        totalLinesAdded = foldl (\<lambda>sum change. sum + linesAdded change) 0 (c_changes this),
        totalLinesDeleted = foldl (\<lambda>sum change. sum + linesDeleted change) 0 (c_changes this)\<rparr>\<rparr>"

text \<open>The virtual \<^verbatim>\<open>shortHash\<close>.\<close>

definition shortHash :: "Commit \<Rightarrow> string" where
  "shortHash this = (if c_hash this \<noteq> [] then take 7 (c_hash this) else [])"

text \<open>
  \<^verbatim>\<open>new Commit({ project, message, author, branch, changes })\<close>: no hash yet, the message
  trimmed by the setter of the schema, the statistics at their defaults.
\<close>

definition newCommit :: "oid \<Rightarrow> oid \<Rightarrow> string \<Rightarrow> oid \<Rightarrow> string \<Rightarrow> change list \<Rightarrow> Commit" where
  "newCommit i projectId message author branch changes =
     \<lparr>c_id = i, c_project = projectId, c_hash = [], c_message = trim message,
      c_author = author, c_branch = branch, c_parentCommits = [], c_changes = changes,
      c_stats = \<lparr>filesChanged = 0, totalLinesAdded = 0, totalLinesDeleted = 0\<rparr>,
      c_createdAt = 0\<rparr>"

text \<open>The validators of the Commit schema: \<^verbatim>\<open>required\<close> and \<^verbatim>\<open>maxlength\<close>.\<close>

definition validCommit :: "Commit \<Rightarrow> bool" where
  "validCommit c \<longleftrightarrow>
     c_hash c \<noteq> []
     \<and> c_message c \<noteq> [] \<and> length (c_message c) \<le> 500
     \<and> c_branch c \<noteq> [] \<and> length (c_branch c) \<le> 100
     \<and> (\<forall>ch \<in> set (c_changes c). ch_filePath ch \<noteq> [])"

text \<open>The pre-save hook of the schema.\<close>

definition commit_pre_save :: "string \<Rightarrow> Commit \<Rightarrow> Commit" where
  "commit_pre_save digest this =
     calculateStats (if c_hash this = [] then generateHash digest this else this)"

text \<open>
  \<^verbatim>\<open>save()\<close> of a new Commit. Mongoose registers its validation as the first pre-save hook
  of every schema, so the document is validated as the caller built it, before
  \<^verbatim>\<open>commitSchema.pre('save')\<close> runs: a commit that reaches \<^verbatim>\<open>save()\<close> without a hash fails
  the validator \<^verbatim>\<open>required\<close> of \<^verbatim>\<open>hash\<close>, and the hook that would generate one is not
  reached. (routes/projects.js calls \<^verbatim>\<open>generateHash()\<close> itself, under the comment
  ``Explicitly generate hash before saving''.) The insertion then fails when the unique index
  on \<^verbatim>\<open>hash\<close> already holds the hash. \<open>None\<close> is the rejected promise.
\<close>

definition insertCommit :: "store \<Rightarrow> string \<Rightarrow> Commit \<Rightarrow> (Commit \<times> store) option" where
  "insertCommit s digest c =
     (if \<not> validCommit c then None
      else (let c = commit_pre_save digest c in
            if c_hash c \<in> set (map c_hash (commits s)) then None
            else (let c = c\<lparr>c_createdAt := clock s\<rparr>
                  in Some (c, s\<lparr>commits := commits s @ [c], clock := clock s + 1\<rparr>))))"

subsection \<open>models/Branch.js\<close>

text \<open>\<^verbatim>\<open>Branch.findOne({ project, name })\<close>; the schema trims \<^verbatim>\<open>name\<close>.\<close>

definition findBranch :: "store \<Rightarrow> oid \<Rightarrow> string \<Rightarrow> Branch option" where
  "findBranch s projectId name =
     find (\<lambda>b. b_project b = projectId \<and> b_name b = trim name) (branches s)"

text \<open>
  \<^verbatim>\<open>new Branch({...})\<close>: the setters trim \<^verbatim>\<open>name\<close> and \<^verbatim>\<open>description\<close>;
  \<^verbatim>\<open>stats.lastActivity\<close> defaults to the time of the construction.
\<close>

definition newBranch ::
  "store \<Rightarrow> oid \<Rightarrow> oid \<Rightarrow> string \<Rightarrow> string option \<Rightarrow> bool \<Rightarrow> bool \<Rightarrow> oid \<Rightarrow> oid option \<Rightarrow> Branch"
  where
  "newBranch s i projectId name description isDefault isProtected creator parentBranch =
     \<lparr>b_id = i, b_project = projectId, b_name = trim name,
      b_description = map_option trim description, b_isDefault = isDefault,
      b_isProtected = isProtected, b_creator = creator, b_lastCommit = None,
      b_parentBranch = parentBranch,
      b_stats = \<lparr>totalCommits = 0, commitsAhead = 0, commitsBehind = 0,
                 lastActivity = clock s\<rparr>\<rparr>"

definition validBranch :: "Branch \<Rightarrow> bool" where
  "validBranch b \<longleftrightarrow>
     b_name b \<noteq> [] \<and> length (b_name b) \<le> 100
     \<and> (case b_description b of None \<Rightarrow> True | Some d \<Rightarrow> length d \<le> 200)"

text \<open>
  \<^verbatim>\<open>branchSchema.pre('save')\<close>: when \<^verbatim>\<open>isDefault\<close> is set and was modified, every other
  branch of the project loses the flag. The \<^verbatim>\<open>updateMany\<close> is not awaited; it is taken
  to have run when the next request reads the collection.
\<close>

definition branch_pre_save :: "store \<Rightarrow> bool \<Rightarrow> Branch \<Rightarrow> store" where
  "branch_pre_save s isDefaultModified this =
     (if b_isDefault this \<and> isDefaultModified
      then s\<lparr>branches := map (\<lambda>b. if b_project b = b_project this \<and> b_id b \<noteq> b_id this
                                    then b\<lparr>b_isDefault := False\<rparr> else b) (branches s)\<rparr>
      else s)"

text \<open>
  \<^verbatim>\<open>save()\<close> of a new Branch: validation, the hook (every path the constructor was given
  counts as modified), then the insertion, which the unique index on
  \<^verbatim>\<open>(project, name)\<close> can refuse. The store comes back also when the save fails, since
  the hook has run by then.
\<close>

definition insertBranch :: "store \<Rightarrow> bool \<Rightarrow> Branch \<Rightarrow> Branch option \<times> store" where
  "insertBranch s isDefaultGiven b =
     (if \<not> validBranch b then (None, s)
      else (let s = branch_pre_save s isDefaultGiven b in
            if \<exists>x \<in> set (branches s). b_project x = b_project b \<and> b_name x = b_name b
            then (None, s)
            else (Some b, s\<lparr>branches := branches s @ [b]\<rparr>)))"

text \<open>
  \<^verbatim>\<open>save()\<close> of a Branch that is stored and whose \<^verbatim>\<open>isDefault\<close> was not assigned: the
  hook does nothing, the modified paths are written.
\<close>

definition updateBranch :: "store \<Rightarrow> oid \<Rightarrow> (Branch \<Rightarrow> Branch) \<Rightarrow> store" where
  "updateBranch s i upd =
     s\<lparr>branches := map (\<lambda>b. if b_id b = i then upd b else b) (branches s)\<rparr>"

text \<open>\<^verbatim>\<open>Commit.find({ project, branch }).sort({ createdAt: -1 })\<close>\<close>

definition branchCommits :: "store \<Rightarrow> oid \<Rightarrow> string \<Rightarrow> Commit list" where
  "branchCommits s projectId branch =
     sort_by createdAtDesc
       (filter (\<lambda>c. c_project c = projectId \<and> c_branch c = branch) (commits s))"

definition updateStats :: "store \<Rightarrow> Branch \<Rightarrow> Branch \<times> store" where
  "updateStats s this =
     (let totalCommits = length (filter (\<lambda>c. c_project c = b_project this
                                              \<and> c_branch c = b_name this) (commits s));
          upd = (\<lambda>b. let b = b\<lparr>b_stats := (b_stats b)\<lparr>totalCommits := totalCommits\<rparr>\<rparr> in
                  (case branchCommits s (b_project this) (b_name this) of
                     [] \<Rightarrow> b
                   | lastCommit # _ \<Rightarrow>
                       b\<lparr>b_stats := (b_stats b)\<lparr>lastActivity := c_createdAt lastCommit\<rparr>,
                         b_lastCommit := Some (c_id lastCommit)\<rparr>))
      in (upd this, updateBranch s (b_id this) upd))"

text \<open>
  \<^verbatim>\<open>calculateDifference\<close>: \<^verbatim>\<open>this\<close> is a Branch document, \<^verbatim>\<open>targetBranch\<close> the name of
  another branch.
\<close>

definition calculateDifference :: "store \<Rightarrow> Branch \<Rightarrow> string \<Rightarrow> Branch \<times> store" where
  "calculateDifference s this targetBranch =
     (let thisCommits = branchCommits s (b_project this) (b_name this);
          targetCommits = branchCommits s (b_project this) targetBranch;
          thisHashes = set (map c_hash thisCommits);
          targetHashes = set (map c_hash targetCommits);
          ahead = length (filter (\<lambda>c. c_hash c \<notin> targetHashes) thisCommits);
          behind = length (filter (\<lambda>c. c_hash c \<notin> thisHashes) targetCommits);
          upd = (\<lambda>b. b\<lparr>b_stats := (b_stats b)\<lparr>commitsAhead := ahead, commitsBehind := behind\<rparr>\<rparr>)
      in (upd this, updateBranch s (b_id this) upd))"

text \<open>\<^verbatim>\<open>Branch.createMain\<close>\<close>

definition createMain :: "store \<Rightarrow> oid \<Rightarrow> oid \<Rightarrow> Branch option \<times> store" where
  "createMain s projectId creatorId =
     (let i = nextId s; s = s\<lparr>nextId := i + 1\<rparr>;
          b = (newBranch s i projectId ''main'' (Some ''Main branch'') True True creatorId None)
      in insertBranch s True b)"

subsection \<open>routes/files.js\<close>

text \<open>
  The path of a request, \<^verbatim>\<open>req.params[0]\<close>, split into the directory and the name:
  \<^verbatim>\<open>pathParts = filePath.split('/'); fileName = pathParts.pop();
  dirPath = pathParts.length > 0 ? '/' + pathParts.join('/') : '/'\<close>
\<close>

definition parsePath :: "string \<Rightarrow> string \<times> string" where
  "parsePath filePath =
     (let pathParts = js_split CHR ''/'' filePath;
          fileName = last pathParts;
          pathParts = butlast pathParts;
          dirPath = (if length pathParts > 0 then ''/'' @ js_join ''/'' pathParts else ''/'')
      in (dirPath, fileName))"

text \<open>
  \<^verbatim>\<open>GET /tree/:projectId\<close>. No middleware of this route sets \<^verbatim>\<open>req.user\<close>. The query
  parameters \<^verbatim>\<open>branch\<close> and \<^verbatim>\<open>path\<close> default to \<^verbatim>\<open>'main'\<close> and \<^verbatim>\<open>'/'\<close>.
\<close>

definition getTree ::
  "store \<Rightarrow> oid option \<Rightarrow> oid \<Rightarrow> string option \<Rightarrow> string option \<Rightarrow> error + File list" where
  "getTree s reqUser projectId branchQuery pathQuery =
     (let branch = (case branchQuery of None \<Rightarrow> ''main'' | Some b \<Rightarrow> b);
          path = (case pathQuery of None \<Rightarrow> ''/'' | Some p \<Rightarrow> p)
      in case findProject s projectId of
           None \<Rightarrow> Inl ProjectNotFound
         | Some project \<Rightarrow>
             if accessDenied project reqUser then Inl AccessDenied
             else Inr (sort_by typeDescNameAsc
                         (filter (\<lambda>f. f_project f = projectId \<and> f_branch f = branch
                                       \<and> f_path f = trim path \<and> \<not> f_isDeleted f) (files s))))"

text \<open>\<^verbatim>\<open>GET /content/:projectId/*\<close>\<close>

definition getContent ::
  "store \<Rightarrow> oid option \<Rightarrow> oid \<Rightarrow> string \<Rightarrow> string option \<Rightarrow> error + File" where
  "getContent s reqUser projectId filePath branchQuery =
     (let branch = (case branchQuery of None \<Rightarrow> ''main'' | Some b \<Rightarrow> b)
      in case findProject s projectId of
           None \<Rightarrow> Inl ProjectNotFound
         | Some project \<Rightarrow>
             if accessDenied project reqUser then Inl AccessDenied
             else (case parsePath filePath of (dirPath, fileName) \<Rightarrow>
                     (case find (\<lambda>f. f_project f = projectId \<and> f_name f = trim fileName
                                       \<and> f_path f = trim dirPath \<and> f_branch f = branch
                                       \<and> f_type f = TFile \<and> \<not> f_isDeleted f) (files s) of
                        None \<Rightarrow> Inl FileNotFound
                      | Some file \<Rightarrow> Inr file)))"

text \<open>
  The validators of \<^verbatim>\<open>PUT\<close> and \<^verbatim>\<open>DELETE /content/:projectId/*\<close> on the body:
  \<^verbatim>\<open>message\<close> trimmed and of 1 to 500 characters, \<^verbatim>\<open>branch\<close> optional, trimmed and of
  at most 100 characters. The sanitizer \<^verbatim>\<open>trim()\<close> replaces the field of the body.
\<close>

definition validMessage :: "string \<Rightarrow> bool" where
  "validMessage message \<longleftrightarrow> 1 \<le> length (trim message) \<and> length (trim message) \<le> 500"

definition validOptional :: "nat \<Rightarrow> string option \<Rightarrow> bool" where
  "validOptional n field \<longleftrightarrow> (case field of None \<Rightarrow> True | Some x \<Rightarrow> length (trim x) \<le> n)"

definition bodyBranch :: "string option \<Rightarrow> string" where
  "bodyBranch branch = (case branch of None \<Rightarrow> ''main'' | Some b \<Rightarrow> trim b)"

text \<open>
  \<^verbatim>\<open>PUT\<close>, ``Find existing file or create new one'' up to the first \<^verbatim>\<open>file.save()\<close>:
  the file as saved, \<^verbatim>\<open>isNewFile\<close>, \<^verbatim>\<open>oldContent\<close> and the store, or \<open>None\<close> when the
  save is rejected. Assigning the content it already has leaves a path unmodified.
\<close>

definition putFile ::
  "store \<Rightarrow> oid \<Rightarrow> string \<Rightarrow> string \<Rightarrow> string \<Rightarrow> string
     \<Rightarrow> (File \<times> bool \<times> string \<times> store) option" where
  "putFile s projectId fileName dirPath content branch =
     (case findLiveFile s projectId fileName dirPath branch of
        Some file \<Rightarrow>
          if f_content file \<noteq> content \<and> length content > 1000000 then None
          else (let upd = (\<lambda>f. if f_content file = content then f
                                else f\<lparr>f_content := content, f_size := length content\<rparr>)
                in Some (upd file, False, f_content file, updateFile s (f_id file) upd))
      | None \<Rightarrow>
          (let i = nextId s; s1 = s\<lparr>nextId := i + 1\<rparr> in
           case insertFile s1 (newFile i projectId dirPath fileName content TFile None 0
                                 branch None) of
             None \<Rightarrow> None
           | Some (file, s2) \<Rightarrow> Some (file, True, [], s2)))"

text \<open>\<^verbatim>\<open>PUT\<close>, ``Create commit'': the document that \<^verbatim>\<open>new Commit({...})\<close> builds.\<close>

definition putCommit ::
  "oid \<Rightarrow> oid \<Rightarrow> string \<Rightarrow> oid \<Rightarrow> string \<Rightarrow> File \<Rightarrow> bool \<Rightarrow> string \<Rightarrow> string \<Rightarrow> Commit" where
  "putCommit i projectId message userId branch file isNewFile content oldContent =
     newCommit i projectId message userId branch
       [\<lparr>ch_file = f_id file,
         ch_action = (if isNewFile then added else modified),
         ch_filePath = fullPath file,
         ch_oldPath = None,
         linesAdded = (if isNewFile then lineCount content else 0),
         linesDeleted = (if isNewFile then 0 else lineCount oldContent)\<rparr>]"

text \<open>
  \<^verbatim>\<open>PUT /content/:projectId/*\<close> up to \<^verbatim>\<open>new Commit({...})\<close>: the answer of a request
  that ends before, or the file as it was saved together with the commit document that the
  route is about to save. The request has passed \<^verbatim>\<open>express.json()\<close>, which answers a body
  above its limit of 100kb itself, and \<^verbatim>\<open>authenticateToken\<close>, which has found the user
  \<open>userId\<close>. A rejected save is caught and answered with 500; what was saved before it
  stays.
\<close>

definition putBuilds ::
  "store \<Rightarrow> oid \<Rightarrow> oid \<Rightarrow> string \<Rightarrow> string \<Rightarrow> string \<Rightarrow> string option
     \<Rightarrow> (error + File \<times> Commit) \<times> store" where
  "putBuilds s projectId userId filePath content message branch =
     (if content = [] \<or> \<not> validMessage message \<or> \<not> validOptional 100 branch
      then (Inl ValidationFailed, s)
      else (let message = trim message; branch = bodyBranch branch in
        case findProject s projectId of
          None \<Rightarrow> (Inl ProjectNotFound, s)
        | Some project \<Rightarrow>
            if \<not> hasPermission project userId editor then (Inl AccessDenied, s)
            else (case parsePath filePath of (dirPath, fileName) \<Rightarrow>
              (case putFile s projectId fileName dirPath content branch of
                 None \<Rightarrow> (Inl ServerError, s)
               | Some (file, isNewFile, oldContent, s1) \<Rightarrow>
                   (let i = nextId s1; s2 = s1\<lparr>nextId := i + 1\<rparr>;
                        commit = putCommit i projectId message userId branch file isNewFile
                                   content oldContent
                    in (Inr (file, commit), s2))))))"

text \<open>
  \<^verbatim>\<open>PUT /content/:projectId/*\<close>: the route as a whole, which goes on with
  \<^verbatim>\<open>commit.save()\<close> and ``Update file's last commit''.
\<close>

definition put ::
  "store \<Rightarrow> oid \<Rightarrow> oid \<Rightarrow> string \<Rightarrow> string \<Rightarrow> string \<Rightarrow> string option \<Rightarrow> string
     \<Rightarrow> (error + File \<times> Commit) \<times> store" where
  "put s projectId userId filePath content message branch digest =
     (case putBuilds s projectId userId filePath content message branch of
        (Inl response, s') \<Rightarrow> (Inl response, s')
      | (Inr (file, commit), s2) \<Rightarrow>
          (case insertCommit s2 digest commit of
             None \<Rightarrow> (Inl ServerError, s2)
           | Some (commit, s3) \<Rightarrow>
               (let upd = (\<lambda>f. f\<lparr>f_lastCommit := Some (c_id commit)\<rparr>)
                in (Inr (upd file, commit), updateFile s3 (f_id file) upd))))"

text \<open>\<^verbatim>\<open>DELETE\<close>, ``Create commit''.\<close>

definition removeCommit :: "oid \<Rightarrow> oid \<Rightarrow> string \<Rightarrow> oid \<Rightarrow> string \<Rightarrow> File \<Rightarrow> Commit" where
  "removeCommit i projectId message userId branch file =
     newCommit i projectId message userId branch
       [\<lparr>ch_file = f_id file,
         ch_action = deleted,
         ch_filePath = fullPath file,
         ch_oldPath = None,
         linesAdded = 0,
         linesDeleted = lineCount (f_content file)\<rparr>]"

text \<open>
  \<^verbatim>\<open>DELETE /content/:projectId/*\<close> up to \<^verbatim>\<open>new Commit({...})\<close>: the answer of a
  request that ends before, or the commit document that the route is about to save, once
  the file is marked as deleted.
\<close>

definition removeBuilds ::
  "store \<Rightarrow> oid \<Rightarrow> oid \<Rightarrow> string \<Rightarrow> string \<Rightarrow> string option \<Rightarrow> (error + Commit) \<times> store"
  where
  "removeBuilds s projectId userId filePath message branch =
     (if \<not> validMessage message \<or> \<not> validOptional 100 branch
      then (Inl ValidationFailed, s)
      else (let message = trim message; branch = bodyBranch branch in
        case findProject s projectId of
          None \<Rightarrow> (Inl ProjectNotFound, s)
        | Some project \<Rightarrow>
            if \<not> hasPermission project userId editor then (Inl AccessDenied, s)
            else (case parsePath filePath of (dirPath, fileName) \<Rightarrow>
              (case findLiveFile s projectId fileName dirPath branch of
                 None \<Rightarrow> (Inl FileNotFound, s)
               | Some file \<Rightarrow>
                   (let upd = (\<lambda>f. f\<lparr>f_isDeleted := True\<rparr>);
                        file = upd file;
                        s1 = updateFile s (f_id file) upd;
                        i = nextId s1; s2 = s1\<lparr>nextId := i + 1\<rparr>;
                        commit = removeCommit i projectId message userId branch file
                    in (Inr commit, s2))))))"

text \<open>\<^verbatim>\<open>DELETE /content/:projectId/*\<close>: the route as a whole.\<close>

definition remove ::
  "store \<Rightarrow> oid \<Rightarrow> oid \<Rightarrow> string \<Rightarrow> string \<Rightarrow> string option \<Rightarrow> string
     \<Rightarrow> (error + Commit) \<times> store" where
  "remove s projectId userId filePath message branch digest =
     (case removeBuilds s projectId userId filePath message branch of
        (Inl response, s') \<Rightarrow> (Inl response, s')
      | (Inr commit, s2) \<Rightarrow>
          (case insertCommit s2 digest commit of
             None \<Rightarrow> (Inl ServerError, s2)
           | Some (commit, s3) \<Rightarrow> (Inr commit, s3)))"

subsection \<open>routes/commits.js\<close>

text \<open>
  \<^verbatim>\<open>GET /:projectId\<close>, the commit history; \<^verbatim>\<open>optionalAuth\<close> sets \<^verbatim>\<open>req.user\<close> or leaves
  it unset. \<open>page\<close> and \<open>limit\<close> are \<^verbatim>\<open>parseInt(page)\<close> and \<^verbatim>\<open>parseInt(limit)\<close>,
  1 and 20 when the query does not give them. A negative \<^verbatim>\<open>skip\<close> is refused by the
  database; \<^verbatim>\<open>limit(0)\<close> is no limit. The response carries the page of commits and the
  total.
\<close>

definition history ::
  "store \<Rightarrow> oid option \<Rightarrow> oid \<Rightarrow> string option \<Rightarrow> nat \<Rightarrow> nat \<Rightarrow> oid option \<Rightarrow> nat option
     \<Rightarrow> nat option \<Rightarrow> error + Commit list \<times> nat" where
  "history s reqUser projectId branchQuery page limit author since until =
     (let branch = (case branchQuery of None \<Rightarrow> ''main'' | Some b \<Rightarrow> b)
      in case findProject s projectId of
           None \<Rightarrow> Inl ProjectNotFound
         | Some project \<Rightarrow>
             if accessDenied project reqUser then Inl AccessDenied
             else (let found = filter (\<lambda>c. c_project c = projectId \<and> c_branch c = branch
                          \<and> (case author of None \<Rightarrow> True | Some a \<Rightarrow> c_author c = a)
                          \<and> (case since of None \<Rightarrow> True | Some t \<Rightarrow> c_createdAt c \<ge> t)
                          \<and> (case until of None \<Rightarrow> True | Some t \<Rightarrow> c_createdAt c \<le> t))
                        (commits s);
                       sorted = sort_by createdAtDesc found
                   in if page = 0 \<and> limit > 0 then Inl ServerError
                      else (let skip = (page - 1) * limit;
                                commits = (if limit = 0 then drop skip sorted
                                           else take limit (drop skip sorted))
                            in Inr (commits, length found))))"

text \<open>
  \<^verbatim>\<open>GET /:projectId/:commitHash\<close>: \<^verbatim>\<open>Commit.findOne\<close> with the regular expression
  answers with a commit that matches. The query has no sort, so that the database chooses
  among several matches; \<open>find\<close> takes the first in natural order. The choice shows only
  on a store where several commits of a project match.
\<close>

definition getCommit :: "store \<Rightarrow> oid option \<Rightarrow> oid \<Rightarrow> string \<Rightarrow> error + Commit" where
  "getCommit s reqUser projectId commitHash =
     (if length commitHash < 7 \<or> length commitHash > 40 then Inl ValidationFailed
      else (case findProject s projectId of
              None \<Rightarrow> Inl ProjectNotFound
            | Some project \<Rightarrow>
                if accessDenied project reqUser then Inl AccessDenied
                else (case find (\<lambda>c. c_project c = projectId
                                      \<and> regexPrefixI commitHash (c_hash c)) (commits s) of
                        None \<Rightarrow> Inl CommitNotFound
                      | Some commit \<Rightarrow> Inr commit)))"

subsection \<open>routes/projects.js\<close>

text \<open>The validators of the Project schema on the document that \<^verbatim>\<open>POST /\<close> builds.\<close>

definition validProject :: "Project \<Rightarrow> bool" where
  "validProject p \<longleftrightarrow>
     p_title p \<noteq> [] \<and> length (p_title p) \<le> 100
     \<and> p_description p \<noteq> [] \<and> length (p_description p) \<le> 500
     \<and> length (p_readme p) \<le> 10000
     \<and> (\<forall>tag \<in> set (p_tags p). length tag \<le> 20)"

text \<open>
  The default README:
  \<^verbatim>\<open>`# ${title}\n\n${description}\n\n## Getting Started\n\nWelcome to this project!`\<close>
\<close>

definition defaultReadme :: "string \<Rightarrow> string \<Rightarrow> string" where
  "defaultReadme title description =
     ''# '' @ title @ [CHR 0x0A, CHR 0x0A] @ description @ [CHR 0x0A, CHR 0x0A]
       @ ''## Getting Started'' @ [CHR 0x0A, CHR 0x0A] @ ''Welcome to this project!''"

text \<open>
  \<^verbatim>\<open>POST /\<close>: the project, its main branch, the README on \<^verbatim>\<open>main\<close> and the initial
  commit, whose hash the route generates before it saves. The field \<^verbatim>\<open>language\<close> of the
  project is left out.
\<close>

definition createProject ::
  "store \<Rightarrow> oid \<Rightarrow> string \<Rightarrow> string \<Rightarrow> string option \<Rightarrow> string list option \<Rightarrow> bool option
     \<Rightarrow> string \<Rightarrow> (error + Project \<times> Branch \<times> Commit) \<times> store" where
  "createProject s userId title description readme tags isPublic digest =
     (if length (trim title) < 1 \<or> length (trim title) > 100
         \<or> length (trim description) < 1 \<or> length (trim description) > 500
         \<or> (case readme of None \<Rightarrow> False | Some r \<Rightarrow> length r > 10000)
      then (Inl ValidationFailed, s)
      else (let title = trim title; description = trim description;
                readmeContent = (case readme of
                                   None \<Rightarrow> defaultReadme title description
                                 | Some r \<Rightarrow> if r = [] then defaultReadme title description
                                             else r);
                i = nextId s; s1 = s\<lparr>nextId := i + 1\<rparr>;
                project = \<lparr>p_id = i, p_title = trim title, p_description = trim description,
                           p_readme = readmeContent,
                           p_tags = (case tags of None \<Rightarrow> []
                                     | Some ts \<Rightarrow> map (\<lambda>tag. map toLower (trim tag)) ts),
                           p_owner = userId, p_collaborators = [],
                           p_isPublic = (case isPublic of None \<Rightarrow> True | Some b \<Rightarrow> b)\<rparr>
        in if \<not> validProject project then (Inl ServerError, s1)
           else (let s2 = s1\<lparr>projects := projects s1 @ [project]\<rparr> in
             case createMain s2 i userId of
               (None, s3) \<Rightarrow> (Inl ServerError, s3)
             | (Some mainBranch, s3) \<Rightarrow>
                 (let j = nextId s3; s4 = s3\<lparr>nextId := j + 1\<rparr> in
                  case insertFile s4 (newFile j i ''/'' ''README.md'' readmeContent TFile None 0
                                        ''main'' None) of
                    None \<Rightarrow> (Inl ServerError, s4)
                  | Some (readmeFile, s5) \<Rightarrow>
                      (let k = nextId s5; s6 = s5\<lparr>nextId := k + 1\<rparr>;
                           initialCommit = generateHash digest
                             (newCommit k i ''Initial commit'' userId ''main''
                                [\<lparr>ch_file = f_id readmeFile,
                                  ch_action = added,
                                  ch_filePath = ''/README.md'',
                                  ch_oldPath = None,
                                  linesAdded = lineCount readmeContent,
                                  linesDeleted = 0\<rparr>])
                       in case insertCommit s6 digest initialCommit of
                            None \<Rightarrow> (Inl ServerError, s6)
                          | Some (initialCommit, s7) \<Rightarrow>
                              (let s8 = updateFile s7 (f_id readmeFile)
                                          (\<lambda>f. f\<lparr>f_lastCommit := Some (c_id initialCommit)\<rparr>)
                               in case updateStats s8 mainBranch of
                                    (mainBranch, s9) \<Rightarrow>
                                      (Inr (project, mainBranch, initialCommit), s9)))))))"

text \<open>
  \<^verbatim>\<open>POST /:id/branches\<close>, ``Copy files from source branch'': the loop over
  \<^verbatim>\<open>sourceFiles\<close>. A rejected save ends the loop and the request; the copies made before
  it stay.
\<close>

fun copyFiles :: "store \<Rightarrow> oid \<Rightarrow> string \<Rightarrow> File list \<Rightarrow> bool \<times> store" where
  "copyFiles s projectId name [] = (True, s)"
| "copyFiles s projectId name (sourceFile # sourceFiles) =
     (let i = nextId s; s1 = s\<lparr>nextId := i + 1\<rparr> in
      case insertFile s1 (newFile i projectId (f_path sourceFile) (f_name sourceFile)
                            (f_content sourceFile) (f_type sourceFile) (f_extension sourceFile)
                            (f_size sourceFile) name (f_parentDirectory sourceFile)) of
        None \<Rightarrow> (False, s1)
      | Some (_, s2) \<Rightarrow> copyFiles s2 projectId name sourceFiles)"

text \<open>\<^verbatim>\<open>POST /:id/branches\<close>; \<^verbatim>\<open>source\<close> defaults to \<^verbatim>\<open>'main'\<close>.\<close>

definition createBranch ::
  "store \<Rightarrow> oid \<Rightarrow> oid \<Rightarrow> string \<Rightarrow> string option \<Rightarrow> string option
     \<Rightarrow> (error + Branch) \<times> store" where
  "createBranch s projectId userId name source description =
     (if length (trim name) < 1 \<or> length (trim name) > 100 \<or> \<not> validOptional 100 source
      then (Inl ValidationFailed, s)
      else (let name = trim name; source = bodyBranch source in
        case findProject s projectId of
          None \<Rightarrow> (Inl ProjectNotFound, s)
        | Some project \<Rightarrow>
            if \<not> hasPermission project userId editor then (Inl AccessDenied, s)
            else if findBranch s projectId name \<noteq> None then (Inl BranchAlreadyExists, s)
            else (case findBranch s projectId source of
                    None \<Rightarrow> (Inl SourceBranchNotFound, s)
                  | Some sourceBranch \<Rightarrow>
                      (let i = nextId s; s1 = s\<lparr>nextId := i + 1\<rparr> in
                       case insertBranch s1 False
                              (newBranch s1 i projectId name description False False userId
                                 (Some (b_id sourceBranch))) of
                         (None, s2) \<Rightarrow> (Inl ServerError, s2)
                       | (Some branch, s2) \<Rightarrow>
                           (let sourceFiles = filter (\<lambda>f. f_project f = projectId
                                  \<and> f_branch f = source \<and> \<not> f_isDeleted f) (files s2)
                            in case copyFiles s2 projectId name sourceFiles of
                                 (False, s3) \<Rightarrow> (Inl ServerError, s3)
                               | (True, s3) \<Rightarrow>
                                   (case updateStats s3 branch of
                                      (branch, s4) \<Rightarrow> (Inr branch, s4)))))))"

text \<open>
  \<^verbatim>\<open>PATCH /:id/branches/:branchName\<close>: \<^verbatim>\<open>protected\<close> and \<^verbatim>\<open>description\<close> of the body,
  each written when it is given. The save validates the description it was given
  (\<^verbatim>\<open>maxlength\<close> 200, after the setter has trimmed it).
\<close>

definition patchBranch ::
  "store \<Rightarrow> oid \<Rightarrow> oid \<Rightarrow> string \<Rightarrow> bool option \<Rightarrow> string option \<Rightarrow> (error + Branch) \<times> store"
  where
  "patchBranch s projectId userId branchName isProtected description =
     (if length (trim branchName) < 1 \<or> length (trim branchName) > 100
      then (Inl ValidationFailed, s)
      else (case findProject s projectId of
              None \<Rightarrow> (Inl ProjectNotFound, s)
            | Some project \<Rightarrow>
                if \<not> hasPermission project userId admin then (Inl AccessDenied, s)
                else (case findBranch s projectId (trim branchName) of
                        None \<Rightarrow> (Inl BranchNotFound, s)
                      | Some branch \<Rightarrow>
                          (let upd = (\<lambda>b.
                                 (let b = (case isProtected of None \<Rightarrow> b
                                           | Some v \<Rightarrow> b\<lparr>b_isProtected := v\<rparr>)
                                  in (case description of None \<Rightarrow> b
                                      | Some d \<Rightarrow> b\<lparr>b_description := Some (trim d)\<rparr>)))
                           in if (case description of None \<Rightarrow> False
                                  | Some d \<Rightarrow> length (trim d) > 200)
                              then (Inl ServerError, s)
                              else (Inr (upd branch), updateBranch s (b_id branch) upd)))))"

text \<open>\<^verbatim>\<open>DELETE /:id/branches/:branchName\<close>\<close>

definition deleteBranch :: "store \<Rightarrow> oid \<Rightarrow> oid \<Rightarrow> string \<Rightarrow> (error + unit) \<times> store" where
  "deleteBranch s projectId userId branchName =
     (if length (trim branchName) < 1 \<or> length (trim branchName) > 100
      then (Inl ValidationFailed, s)
      else (case findProject s projectId of
              None \<Rightarrow> (Inl ProjectNotFound, s)
            | Some project \<Rightarrow>
                if \<not> hasPermission project userId admin then (Inl AccessDenied, s)
                else (case findBranch s projectId (trim branchName) of
                        None \<Rightarrow> (Inl BranchNotFound, s)
                      | Some branch \<Rightarrow>
                          if b_isDefault branch then (Inl CannotDeleteDefault, s)
                          else if b_isProtected branch then (Inl CannotDeleteProtected, s)
                          else (Inr (), s\<lparr>branches := filter (\<lambda>b. b_id b \<noteq> b_id branch)
                                                          (branches s)\<rparr>))))"

subsection \<open>Sequences of requests\<close>

text \<open>
  The requests that write to the collections of branches, files and commits. The other
  routes of routes/projects.js (update and delete a project, add and remove a collaborator)
  write to the Project document only.
\<close>

datatype request =
    CreateProject oid string string "string option" "string list option" "bool option" string
  | CreateBranch oid oid string "string option" "string option"
  | PatchBranch oid oid string "bool option" "string option"
  | DeleteBranch oid oid string
  | Put oid oid string string string "string option" string
  | Remove oid oid string string "string option" string

fun serve :: "store \<Rightarrow> request \<Rightarrow> store" where
  "serve s (CreateProject userId title description readme tags isPublic digest) =
     snd (createProject s userId title description readme tags isPublic digest)"
| "serve s (CreateBranch projectId userId name source description) =
     snd (createBranch s projectId userId name source description)"
| "serve s (PatchBranch projectId userId branchName isProtected description) =
     snd (patchBranch s projectId userId branchName isProtected description)"
| "serve s (DeleteBranch projectId userId branchName) =
     snd (deleteBranch s projectId userId branchName)"
| "serve s (Put projectId userId filePath content message branch digest) =
     snd (put s projectId userId filePath content message branch digest)"
| "serve s (Remove projectId userId filePath message branch digest) =
     snd (remove s projectId userId filePath message branch digest)"

definition serveAll :: "store \<Rightarrow> request list \<Rightarrow> store" where
  "serveAll s requests = foldl serve s requests"

subsection \<open>Vocabulary of the properties\<close>

definition isHexDigit :: "char \<Rightarrow> bool" where
  "isHexDigit c \<longleftrightarrow> (CHR ''0'' \<le> c \<and> c \<le> CHR ''9'') \<or> (CHR ''a'' \<le> c \<and> c \<le> CHR ''f'')"


text \<open>The commits recorded on a branch, and the hashes among them.\<close>

definition commitsOn :: "store \<Rightarrow> oid \<Rightarrow> string \<Rightarrow> Commit list" where
  "commitsOn s projectId branch =
     filter (\<lambda>c. c_project c = projectId \<and> c_branch c = branch) (commits s)"

definition hashesOn :: "store \<Rightarrow> oid \<Rightarrow> string \<Rightarrow> string set" where
  "hashesOn s projectId branch = set (map c_hash (commitsOn s projectId branch))"

text \<open>The File documents of a branch, deleted or not, and the live ones.\<close>

definition branchFiles :: "store \<Rightarrow> oid \<Rightarrow> string \<Rightarrow> File list" where
  "branchFiles s projectId branch =
     filter (\<lambda>f. f_project f = projectId \<and> f_branch f = branch) (files s)"

definition liveFiles :: "store \<Rightarrow> oid \<Rightarrow> string \<Rightarrow> File list" where
  "liveFiles s projectId branch = filter (\<lambda>f. \<not> f_isDeleted f) (branchFiles s projectId branch)"

text \<open>
  A File document of a branch that is a copy of a File document of another: the path, the
  name (as the setters of a new document trim them), the content and the type are those of
  the original, the copy is not deleted and has no last commit.
\<close>

definition copyOf :: "oid \<Rightarrow> string \<Rightarrow> File \<Rightarrow> File \<Rightarrow> bool" where
  "copyOf projectId name f g \<longleftrightarrow>
     f_project g = projectId \<and> f_branch g = name \<and> f_path g = trim (f_path f)
     \<and> f_name g = trim (f_name f) \<and> f_content g = f_content f \<and> f_type g = f_type f
     \<and> f_lastCommit g = None \<and> \<not> f_isDeleted g"

text \<open>A request that writes or deletes a file on a given branch of a project.\<close>

fun writesOn :: "oid \<Rightarrow> string \<Rightarrow> request \<Rightarrow> bool" where
  "writesOn p b (Put projectId userId filePath content message branch digest) \<longleftrightarrow>
     projectId = p \<and> bodyBranch branch = b"
| "writesOn p b (Remove projectId userId filePath message branch digest) \<longleftrightarrow>
     projectId = p \<and> bodyBranch branch = b"
| "writesOn p b _ \<longleftrightarrow> False"

text \<open>The default branches of a project.\<close>

definition defaultBranches :: "store \<Rightarrow> oid \<Rightarrow> Branch list" where
  "defaultBranches s projectId =
     filter (\<lambda>b. b_project b = projectId \<and> b_isDefault b) (branches s)"

text \<open>
  What the routes keep true of a store. The identifiers of the File documents are below
  the counter and not shared, and the stored paths and names are trimmed.
\<close>

definition wfFiles :: "store \<Rightarrow> bool" where
  "wfFiles s \<longleftrightarrow>
     distinct (map f_id (files s))
     \<and> (\<forall>f \<in> set (files s). f_id f < nextId s \<and> trim (f_path f) = f_path f
                               \<and> trim (f_name f) = f_name f)"

text \<open>
  The identifiers of the Branch documents are below the counter and not shared, a branch
  belongs to an identifier below the counter, and every project has one default branch.
\<close>

definition wfBranches :: "store \<Rightarrow> bool" where
  "wfBranches s \<longleftrightarrow>
     distinct (map b_id (branches s))
     \<and> (\<forall>b \<in> set (branches s). b_id b < nextId s \<and> b_project b < nextId s)
     \<and> (\<forall>p \<in> set (projects s). p_id p < nextId s
                                  \<and> length (defaultBranches s (p_id p)) = 1)"

text \<open>No two commits share a hash.\<close>

definition wfHashes :: "store \<Rightarrow> bool" where
  "wfHashes s \<longleftrightarrow> distinct (map c_hash (commits s))"

definition wellFormed :: "store \<Rightarrow> bool" where
  "wellFormed s \<longleftrightarrow> wfFiles s \<and> wfBranches s \<and> wfHashes s"


text \<open>The statistics that aggregate a list of changes.\<close>

definition aggregates :: "change list \<Rightarrow> commit_stats" where
  "aggregates changes =
     \<lparr>filesChanged = length changes,
      totalLinesAdded = sum_list (map linesAdded changes),
      totalLinesDeleted = sum_list (map linesDeleted changes)\<rparr>"

text \<open>
  No two commits belong to the same project, a commit belongs to an identifier below the
  counter, and its statistics aggregate its changes.
\<close>

definition wfCommits :: "store \<Rightarrow> bool" where
  "wfCommits s \<longleftrightarrow>
     distinct (map c_project (commits s))
     \<and> (\<forall>c \<in> set (commits s). c_project c < nextId s \<and> c_stats c = aggregates (c_changes c))"

text \<open>
  The divergence of a branch from a target: \<^verbatim>\<open>calculateDifference\<close> on the document that
  \<^verbatim>\<open>Branch.findOne\<close> finds for the name, read off its statistics as (ahead, behind).
\<close>

definition divergence :: "store \<Rightarrow> oid \<Rightarrow> string \<Rightarrow> string \<Rightarrow> (nat \<times> nat) option" where
  "divergence s projectId name targetName =
     map_option (\<lambda>this. (commitsAhead (b_stats (fst (calculateDifference s this targetName))),
                         commitsBehind (b_stats (fst (calculateDifference s this targetName)))))
       (findBranch s projectId name)"

text \<open>The content that \<^verbatim>\<open>getContent\<close> answers with, \<open>None\<close> when it answers with an error.\<close>

definition contentOf :: "error + File \<Rightarrow> string option" where
  "contentOf response = (case response of Inl _ \<Rightarrow> None | Inr file \<Rightarrow> Some (f_content file))"

subsection \<open>Example stores\<close>

definition demoDigest :: string where
  "demoDigest = ''da39a3ee5e6b4b0d3255bfef95601890afd80709''"

definition demoDigest2 :: string where
  "demoDigest2 = ''0a4d55a8d778e5022fab701977c5d840bbc486d0''"

definition helloWorld :: string where
  "helloWorld = ''hello'' @ [CHR 0x0A] @ ''world''"

definition helloWorldMore :: string where
  "helloWorldMore = ''hello'' @ [CHR 0x0A] @ ''world'' @ [CHR 0x0A] @ ''more''"

text \<open>
  The scenario of a fork and a write, for any user, title, description and digests: the
  user creates a project with the README \<^verbatim>\<open>"hello\nworld"\<close>, forks \<^verbatim>\<open>feature\<close> from
  \<^verbatim>\<open>main\<close> and writes \<^verbatim>\<open>"hello\nworld\nmore"\<close> to the README on \<^verbatim>\<open>feature\<close>.
\<close>

definition scenarioProject :: "oid \<Rightarrow> string \<Rightarrow> string \<Rightarrow> string \<Rightarrow> store" where
  "scenarioProject userId title description digest =
     snd (createProject empty_store userId title description (Some helloWorld) None None digest)"

definition scenarioFork :: "oid \<Rightarrow> string \<Rightarrow> string \<Rightarrow> string \<Rightarrow> store" where
  "scenarioFork userId title description digest =
     snd (createBranch (scenarioProject userId title description digest) 0 userId ''feature''
            (Some ''main'') None)"

definition scenarioWrite :: "oid \<Rightarrow> string \<Rightarrow> string \<Rightarrow> string \<Rightarrow> string \<Rightarrow> string \<Rightarrow> store"
  where
  "scenarioWrite userId title description digest message digest2 =
     snd (put (scenarioFork userId title description digest) 0 userId ''README.md''
            helloWorldMore message (Some ''feature'') digest2)"

text \<open>User 7 creates the public project P with the README \<^verbatim>\<open>"hello\nworld"\<close>.\<close>

definition demoProject :: store where
  "demoProject =
     snd (createProject empty_store 7 ''P'' ''demo'' (Some helloWorld) None None demoDigest)"

text \<open>The branch \<^verbatim>\<open>feature\<close> is forked from \<^verbatim>\<open>main\<close>.\<close>

definition demoFork :: store where
  "demoFork = snd (createBranch demoProject 0 7 ''feature'' (Some ''main'') None)"

text \<open>\<^verbatim>\<open>/README.md\<close> is written on \<^verbatim>\<open>feature\<close>.\<close>

definition demoWrite :: store where
  "demoWrite =
     snd (put demoFork 0 7 ''README.md'' helloWorldMore ''more'' (Some ''feature'') demoDigest2)"

text \<open>On \<^verbatim>\<open>main\<close>: write A, write B, delete, at the path \<^verbatim>\<open>notes.txt\<close>.\<close>

definition demoA :: store where
  "demoA = snd (put demoProject 0 7 ''notes.txt'' ''A'' ''add notes'' None demoDigest2)"

definition demoB :: store where
  "demoB = snd (put demoA 0 7 ''notes.txt'' ''B'' ''change notes'' None demoDigest2)"

definition demoDeleted :: store where
  "demoDeleted = snd (remove demoB 0 7 ''notes.txt'' ''drop notes'' None demoDigest2)"

text \<open>A file whose extension has more than ten characters is written to \<^verbatim>\<open>main\<close>.\<close>

definition demoLongExtension :: store where
  "demoLongExtension =
     snd (put demoProject 0 7 ''notes.markdown-draft'' ''A'' ''add notes'' None demoDigest2)"


text \<open>A Commit document of project 0, as a receiver of \<^verbatim>\<open>generateHash\<close>.\<close>

definition demoCommit1 :: Commit where
  "demoCommit1 = \<lparr>c_id = 4, c_project = 0, c_hash = ''abc1234e'', c_message = ''one'',
                   c_author = 7, c_branch = ''main'', c_parentCommits = [], c_changes = [],
                   c_stats = \<lparr>filesChanged = 0, totalLinesAdded = 0, totalLinesDeleted = 0\<rparr>,
                   c_createdAt = 1\<rparr>"

section \<open>Properties\<close>

lemmas model_defs = isSpace_def trim_def lineCount_def toLower_def isAlnum_def regexPrefixI_def
  empty_store_def hasPermission_def findProject_def accessDenied_def sort_by_def createdAtDesc_def
  typeDescNameAsc_def fullPath_def newFile_def validFile_def file_pre_save_def insertFile_def
  updateFile_def findLiveFile_def generateHash_def calculateStats_def shortHash_def newCommit_def
  validCommit_def commit_pre_save_def insertCommit_def findBranch_def newBranch_def validBranch_def
  branch_pre_save_def insertBranch_def updateBranch_def branchCommits_def updateStats_def
  calculateDifference_def createMain_def parsePath_def getTree_def getContent_def validMessage_def
  validOptional_def bodyBranch_def putFile_def putCommit_def putBuilds_def put_def removeCommit_def
  removeBuilds_def remove_def
  history_def getCommit_def validProject_def defaultReadme_def createProject_def createBranch_def
  patchBranch_def deleteBranch_def Let_def

lemmas demo_defs = demoDigest_def demoDigest2_def helloWorld_def helloWorldMore_def

subsection \<open>The example stores, evaluated\<close>

lemma demoProject_eq: "demoProject = \<lparr>projects =
    [\<lparr>p_id = 0, p_title = ''P'', p_description = ''demo'',
        p_readme = helloWorld, p_tags = [], p_owner = 7,
        p_collaborators = [], p_isPublic = True\<rparr>],
    branches =
      [\<lparr>b_id = 1, b_project = 0, b_name = ''main'',
          b_description = Some ''Main branch'', b_isDefault = True,
          b_isProtected = True, b_creator = 7, b_lastCommit = Some 3,
          b_parentBranch = None,
          b_stats = \<lparr>totalCommits = 1, commitsAhead = 0, commitsBehind = 0, lastActivity = 0\<rparr>\<rparr>],
    files =
      [\<lparr>f_id = 2, f_project = 0, f_path = ''/'', f_name = ''README.md'',
          f_content = helloWorld, f_type = TFile,
          f_extension = Some ''md'', f_size = 11, f_branch = ''main'',
          f_lastCommit = Some 3, f_isDeleted = False, f_parentDirectory = None\<rparr>],
    commits =
      [\<lparr>c_id = 3, c_project = 0, c_hash = ''da39a3e'',
          c_message = ''Initial commit'', c_author = 7, c_branch = ''main'',
          c_parentCommits = [],
          c_changes =
            [\<lparr>ch_file = 2, ch_action = added, ch_filePath = ''/README.md'',
                ch_oldPath = None, linesAdded = 2, linesDeleted = 0\<rparr>],
          c_stats = \<lparr>filesChanged = 1, totalLinesAdded = 2, totalLinesDeleted = 0\<rparr>,
          c_createdAt = 0\<rparr>],
    nextId = 4, clock = 1\<rparr>"
  by (simp add: demoProject_def demo_defs model_defs)

lemma demoFork_eq: "demoFork = demoProject\<lparr>
    branches := branches demoProject @
       [\<lparr>b_id = 4, b_project = 0, b_name = ''feature'', b_description = None,
          b_isDefault = False, b_isProtected = False, b_creator = 7,
          b_lastCommit = None, b_parentBranch = Some 1,
          b_stats = \<lparr>totalCommits = 0, commitsAhead = 0, commitsBehind = 0, lastActivity = 1\<rparr>\<rparr>],
    files := files demoProject @ 
       [\<lparr>f_id = 5, f_project = 0, f_path = ''/'', f_name = ''README.md'',
          f_content = helloWorld, f_type = TFile,
          f_extension = Some ''md'', f_size = 11, f_branch = ''feature'',
          f_lastCommit = None, f_isDeleted = False, f_parentDirectory = None\<rparr>],
    nextId := 6\<rparr>"
  by (simp add: demoFork_def demoProject_eq demo_defs model_defs)

lemma demoWrite_eq: "demoWrite = demoFork\<lparr>
    files := files demoProject @ 
       [\<lparr>f_id = 5, f_project = 0, f_path = ''/'', f_name = ''README.md'',
          f_content = helloWorldMore, f_type = TFile,
          f_extension = Some ''md'', f_size = 16, f_branch = ''feature'',
          f_lastCommit = None, f_isDeleted = False, f_parentDirectory = None\<rparr>],
    nextId := 7\<rparr>"
  by (simp add: demoWrite_def demoFork_eq demoProject_eq demo_defs model_defs)

lemma demoA_eq: "put demoProject 0 7 ''notes.txt'' ''A'' ''add notes'' None demoDigest2 =
  (Inl ServerError, demoProject\<lparr>files := files demoProject @
       [\<lparr>f_id = 4, f_project = 0, f_path = ''/'', f_name = ''notes.txt'',
          f_content = ''A'', f_type = TFile, f_extension = Some ''txt'', f_size = 1,
          f_branch = ''main'', f_lastCommit = None, f_isDeleted = False,
          f_parentDirectory = None\<rparr>], nextId := 6\<rparr>)"
  by (simp add: demoProject_eq demo_defs model_defs)

lemma demoB_eq: "put demoA 0 7 ''notes.txt'' ''B'' ''change notes'' None demoDigest2 =
  (Inl ServerError, demoProject\<lparr>files := files demoProject @
       [\<lparr>f_id = 4, f_project = 0, f_path = ''/'', f_name = ''notes.txt'',
          f_content = ''B'', f_type = TFile, f_extension = Some ''txt'', f_size = 1,
          f_branch = ''main'', f_lastCommit = None, f_isDeleted = False,
          f_parentDirectory = None\<rparr>], nextId := 7\<rparr>)"
  by (simp add: demoA_def demoA_eq) (simp add: demoProject_eq demo_defs model_defs)

lemma demoDeleted_eq: "remove demoB 0 7 ''notes.txt'' ''drop notes'' None demoDigest2 =
  (Inl ServerError, demoProject\<lparr>files := files demoProject @
       [\<lparr>f_id = 4, f_project = 0, f_path = ''/'', f_name = ''notes.txt'',
          f_content = ''B'', f_type = TFile, f_extension = Some ''txt'', f_size = 1,
          f_branch = ''main'', f_lastCommit = None, f_isDeleted = True,
          f_parentDirectory = None\<rparr>], nextId := 8\<rparr>)"
  by (simp add: demoB_def demoB_eq) (simp add: demoProject_eq demo_defs model_defs)

subsection \<open>Strings\<close>

lemma trim_idem: "trim (trim x) = trim x"
proof -
  define u where "u = dropWhile isSpace x"
  define v where "v = dropWhile isSpace (rev u)"
  have 1: "dropWhile isSpace v = v" by (simp add: v_def)
  have "rev u = takeWhile isSpace (rev u) @ v" by (simp add: v_def)
  then have u: "u = rev v @ rev (takeWhile isSpace (rev u))"
    by (metis rev_append rev_rev_ident)
  have 2: "dropWhile isSpace (rev v) = rev v"
  proof (cases "v = []")
    case True
    then show ?thesis by simp
  next
    case False
    then have "hd u = hd (rev v)" using u by (metis hd_append2 rev_is_Nil_conv)
    moreover have "u \<noteq> []" using False u by auto
    then have "\<not> isSpace (hd u)" unfolding u_def by (metis hd_dropWhile)
    ultimately show ?thesis by (simp add: dropWhile_eq_self_iff)
  qed
  have "trim x = rev v" by (simp add: trim_def u_def v_def)
  then show ?thesis using 1 2 by (simp add: trim_def)
qed

lemma js_split_length: "length (js_split sep s) = Suc (length (filter (\<lambda>c. c = sep) s))"
  by (induction s) (auto split: list.splits)

lemma foldl_plus: "foldl (\<lambda>sum change. sum + f change) a xs = a + sum_list (map f xs)"
  by (induction xs arbitrary: a) (simp_all add: add.assoc)

subsection \<open>Sorting\<close>

lemma set_insort_by: "set (insort_by le x xs) = insert x (set xs)"
  by (induction xs) auto

lemma set_sort_by: "set (sort_by le xs) = set xs"
  by (induction xs) (simp_all add: sort_by_def set_insort_by)

lemma length_insort_by: "length (insort_by le x xs) = Suc (length xs)"
  by (induction xs) auto

lemma length_filter_insort_by:
  "length (filter P (insort_by le x xs)) = length (filter P (x # xs))"
  by (induction xs) auto

lemma length_filter_sort_by: "length (filter P (sort_by le xs)) = length (filter P xs)"
  by (induction xs) (simp_all add: sort_by_def length_filter_insort_by)







subsection \<open>What a save leaves alone\<close>

lemma insertCommit_frame:
  "insertCommit s digest c = Some (c', s') \<Longrightarrow>
     files s' = files s \<and> branches s' = branches s \<and> projects s' = projects s
     \<and> nextId s' = nextId s"
  by (auto simp: insertCommit_def Let_def split: if_splits)

lemma insertCommit_commits:
  "insertCommit s digest c = Some (c', s') \<Longrightarrow>
     commits s' = commits s @ [c'] \<and> c_hash c' \<notin> set (map c_hash (commits s))
     \<and> c_createdAt c' = clock s \<and> clock s' = clock s + 1"
  by (auto simp: insertCommit_def Let_def split: if_splits)

lemma insertCommit_result:
  "insertCommit s digest c = Some (c', s') \<Longrightarrow>
     c' = (commit_pre_save digest c)\<lparr>c_createdAt := clock s\<rparr> \<and> validCommit c"
  by (auto simp: insertCommit_def Let_def split: if_splits)

lemma insertFile_frame:
  "insertFile s f = Some (f', s') \<Longrightarrow>
     files s' = files s @ [f'] \<and> f' = file_pre_save f \<and> validFile f
     \<and> branches s' = branches s \<and> projects s' = projects s
     \<and> commits s' = commits s \<and> nextId s' = nextId s \<and> clock s' = clock s"
  by (auto simp: insertFile_def Let_def split: if_splits)

lemma file_pre_save_fields [simp]:
  "f_id (file_pre_save f) = f_id f" "f_path (file_pre_save f) = f_path f"
  "f_name (file_pre_save f) = f_name f" "f_project (file_pre_save f) = f_project f"
  "f_branch (file_pre_save f) = f_branch f" "f_content (file_pre_save f) = f_content f"
  "f_lastCommit (file_pre_save f) = f_lastCommit f"
  "f_isDeleted (file_pre_save f) = f_isDeleted f" "f_type (file_pre_save f) = f_type f"
  by (simp_all add: file_pre_save_def Let_def)

lemma updateFile_frame [simp]:
  "branches (updateFile s i upd) = branches s" "projects (updateFile s i upd) = projects s"
  "commits (updateFile s i upd) = commits s" "nextId (updateFile s i upd) = nextId s"
  "clock (updateFile s i upd) = clock s"
  by (simp_all add: updateFile_def)

lemma updateBranch_frame [simp]:
  "files (updateBranch s i upd) = files s" "projects (updateBranch s i upd) = projects s"
  "commits (updateBranch s i upd) = commits s" "nextId (updateBranch s i upd) = nextId s"
  "clock (updateBranch s i upd) = clock s"
  by (simp_all add: updateBranch_def)

lemma updateStats_frame [simp]:
  "files (snd (updateStats s b)) = files s" "projects (snd (updateStats s b)) = projects s"
  "commits (snd (updateStats s b)) = commits s" "nextId (snd (updateStats s b)) = nextId s"
  "clock (snd (updateStats s b)) = clock s"
  by (simp_all add: updateStats_def Let_def)

lemma insertBranch_frame:
  "insertBranch s g b = (r, s') \<Longrightarrow>
     files s' = files s \<and> projects s' = projects s \<and> commits s' = commits s
     \<and> nextId s' = nextId s \<and> clock s' = clock s"
  by (auto simp: insertBranch_def branch_pre_save_def Let_def split: if_splits)

lemma newBranch_fields [simp]:
  "b_id (newBranch s i p n de df pr cr pb) = i"
  "b_project (newBranch s i p n de df pr cr pb) = p"
  "b_isDefault (newBranch s i p n de df pr cr pb) = df"
  "b_name (newBranch s i p n de df pr cr pb) = trim n"
  by (simp_all add: newBranch_def)

lemma createMain_frame:
  "createMain s pid u = (bo, s3) \<Longrightarrow>
     files s3 = files s \<and> projects s3 = projects s \<and> commits s3 = commits s
     \<and> nextId s3 = nextId s + 1 \<and> clock s3 = clock s"
  by (auto simp: createMain_def Let_def dest!: insertBranch_frame)

lemma findProject_Some: "findProject s pid = Some p \<Longrightarrow> p \<in> set (projects s) \<and> p_id p = pid"
  by (auto simp: findProject_def find_Some_iff)

lemma findBranch_Some:
  "findBranch s pid n = Some b \<Longrightarrow> b \<in> set (branches s) \<and> b_project b = pid \<and> b_name b = trim n"
  by (auto simp: findBranch_def find_Some_iff)

lemma findLiveFile_Some:
  "findLiveFile s pid fileName dirPath branch = Some a \<Longrightarrow>
     a \<in> set (files s) \<and> f_project a = pid \<and> f_branch a = branch \<and> \<not> f_isDeleted a"
  by (auto simp: findLiveFile_def find_Some_iff)

lemma distinct_map_eq:
  "distinct (map f xs) \<Longrightarrow> x \<in> set xs \<Longrightarrow> y \<in> set xs \<Longrightarrow> f x = f y \<Longrightarrow> x = y"
  by (meson distinct_map inj_onD)

lemma copyFiles_frame:
  "branches (snd (copyFiles s pid name fs)) = branches s
   \<and> projects (snd (copyFiles s pid name fs)) = projects s
   \<and> commits (snd (copyFiles s pid name fs)) = commits s
   \<and> clock (snd (copyFiles s pid name fs)) = clock s
   \<and> nextId s \<le> nextId (snd (copyFiles s pid name fs))"
proof (induction fs arbitrary: s)
  case Nil
  then show ?case by simp
next
  case (Cons f fs)
  show ?case
  proof (cases "insertFile (s\<lparr>nextId := nextId s + 1\<rparr>)
          (newFile (nextId s) pid (f_path f) (f_name f) (f_content f) (f_type f)
             (f_extension f) (f_size f) name (f_parentDirectory f))")
    case None
    then show ?thesis by (simp add: Let_def)
  next
    case (Some a)
    obtain g s2 where a: "a = (g, s2)" by (cases a)
    from insertFile_frame[OF Some[unfolded a]] Cons.IH[of s2] show ?thesis
      using Some a by (simp add: Let_def)
  qed
qed

lemma copyFiles_frame_eq:
  "copyFiles s pid name fs = (ok, s3) \<Longrightarrow>
     branches s3 = branches s \<and> projects s3 = projects s \<and> commits s3 = commits s
     \<and> clock s3 = clock s \<and> nextId s \<le> nextId s3"
  using copyFiles_frame[of s pid name fs] by simp

lemma patchBranch_frame:
  "files (snd (patchBranch s pid u n pr de)) = files s
   \<and> projects (snd (patchBranch s pid u n pr de)) = projects s
   \<and> commits (snd (patchBranch s pid u n pr de)) = commits s
   \<and> nextId (snd (patchBranch s pid u n pr de)) = nextId s"
  by (simp add: patchBranch_def Let_def split: option.splits)

lemma deleteBranch_frame:
  "files (snd (deleteBranch s pid u n)) = files s
   \<and> projects (snd (deleteBranch s pid u n)) = projects s
   \<and> commits (snd (deleteBranch s pid u n)) = commits s
   \<and> nextId (snd (deleteBranch s pid u n)) = nextId s"
  by (simp add: deleteBranch_def Let_def split: option.splits)

subsection \<open>The commit of a write is never stored\<close>

text \<open>
  \<^verbatim>\<open>PUT\<close> and \<^verbatim>\<open>DELETE /content/:projectId/*\<close> build their commit without a hash, so its
  save is rejected, whatever the store and the request: once the file is saved, the answer
  is 500, and the collection of commits is as it was.
\<close>

lemma insertCommit_newCommit:
  "insertCommit s digest (newCommit i projectId message author branch changes) = None"
  by (simp add: insertCommit_def validCommit_def newCommit_def)

lemma put_eq:
  "put s projectId userId filePath content message branch digest =
     (if content = [] \<or> \<not> validMessage message \<or> \<not> validOptional 100 branch
      then (Inl ValidationFailed, s)
      else (case findProject s projectId of
              None \<Rightarrow> (Inl ProjectNotFound, s)
            | Some project \<Rightarrow>
                if \<not> hasPermission project userId editor then (Inl AccessDenied, s)
                else (case putFile s projectId (snd (parsePath filePath))
                             (fst (parsePath filePath)) content (bodyBranch branch) of
                        None \<Rightarrow> (Inl ServerError, s)
                      | Some (file, isNewFile, oldContent, s1) \<Rightarrow>
                          (Inl ServerError, s1\<lparr>nextId := nextId s1 + 1\<rparr>))))"
  by (simp add: put_def putBuilds_def Let_def putCommit_def insertCommit_newCommit
        split: option.splits prod.splits)

lemma remove_eq:
  "remove s projectId userId filePath message branch digest =
     (if \<not> validMessage message \<or> \<not> validOptional 100 branch
      then (Inl ValidationFailed, s)
      else (case findProject s projectId of
              None \<Rightarrow> (Inl ProjectNotFound, s)
            | Some project \<Rightarrow>
                if \<not> hasPermission project userId editor then (Inl AccessDenied, s)
                else (case findLiveFile s projectId (snd (parsePath filePath))
                             (fst (parsePath filePath)) (bodyBranch branch) of
                        None \<Rightarrow> (Inl FileNotFound, s)
                      | Some file \<Rightarrow>
                          (Inl ServerError,
                           (updateFile s (f_id file) (\<lambda>f. f\<lparr>f_isDeleted := True\<rparr>))
                             \<lparr>nextId := nextId s + 1\<rparr>))))"
  by (simp add: remove_def removeBuilds_def Let_def removeCommit_def insertCommit_newCommit
        split: option.splits prod.splits)

lemma put_never_succeeds:
  "\<exists>e. fst (put s projectId userId filePath content message branch digest) = Inl e"
  by (simp add: put_eq split: option.splits)

lemma remove_never_succeeds:
  "\<exists>e. fst (remove s projectId userId filePath message branch digest) = Inl e"
  by (simp add: remove_eq split: option.splits)

lemma putFile_frame:
  "putFile s pid fileName dirPath content branch = Some (fl, isNew, old, s1) \<Longrightarrow>
     branches s1 = branches s \<and> projects s1 = projects s \<and> commits s1 = commits s
     \<and> clock s1 = clock s \<and> nextId s \<le> nextId s1"
  by (auto simp: putFile_def Let_def split: option.splits if_splits dest!: insertFile_frame)

lemma put_frame:
  "branches (snd (put s pid u fp content msg br d)) = branches s
   \<and> projects (snd (put s pid u fp content msg br d)) = projects s
   \<and> nextId s \<le> nextId (snd (put s pid u fp content msg br d))"
  by (auto simp: put_eq split: option.splits dest!: putFile_frame)

lemma remove_frame:
  "branches (snd (remove s pid u fp msg br d)) = branches s
   \<and> projects (snd (remove s pid u fp msg br d)) = projects s
   \<and> nextId s \<le> nextId (snd (remove s pid u fp msg br d))"
  by (simp add: remove_eq split: option.splits)

lemma put_commits: "commits (snd (put s pid u fp content msg br d)) = commits s"
  by (auto simp: put_eq split: option.splits dest!: putFile_frame)

lemma remove_commits: "commits (snd (remove s pid u fp msg br d)) = commits s"
  by (simp add: remove_eq split: option.splits)

subsection \<open>The stages of the longer routes\<close>

lemma createBranch_stages:
  assumes "createBranch s pid u name source description = (r, s')"
  obtains (early) "s' = s" "\<forall>b. r \<noteq> Inr b"
  | (refused) s2 and sourceBranch :: Branch where
      "findBranch s pid (bodyBranch source) = Some sourceBranch"
      "insertBranch (s\<lparr>nextId := nextId s + 1\<rparr>) False
         (newBranch (s\<lparr>nextId := nextId s + 1\<rparr>) (nextId s) pid (trim name) description
            False False u (Some (b_id sourceBranch))) = (None, s2)"
      "s' = s2" "r = Inl ServerError"
  | (copied) sourceBranch branch s2 ok s3 where
      "findBranch s pid (trim name) = None"
      "findBranch s pid (bodyBranch source) = Some sourceBranch"
      "insertBranch (s\<lparr>nextId := nextId s + 1\<rparr>) False
         (newBranch (s\<lparr>nextId := nextId s + 1\<rparr>) (nextId s) pid (trim name) description
            False False u (Some (b_id sourceBranch))) = (Some branch, s2)"
      "copyFiles s2 pid (trim name)
         (filter (\<lambda>f. f_project f = pid \<and> f_branch f = bodyBranch source \<and> \<not> f_isDeleted f)
            (files s2)) = (ok, s3)"
      "s' = (if ok then snd (updateStats s3 branch) else s3)"
      "r = (if ok then Inr (fst (updateStats s3 branch)) else Inl ServerError)"
proof (cases "length (trim name) < 1 \<or> length (trim name) > 100 \<or> \<not> validOptional 100 source
      \<or> findProject s pid = None
      \<or> (\<exists>p. findProject s pid = Some p \<and> \<not> hasPermission p u editor)
      \<or> findBranch s pid (trim name) \<noteq> None
      \<or> findBranch s pid (bodyBranch source) = None")
  case True
  then have "s' = s \<and> (\<forall>b. r \<noteq> Inr b)" using assms
    by (auto simp: createBranch_def Let_def split: if_splits option.splits)
  then show ?thesis using early by blast
next
  case False
  then obtain p sourceBranch where p: "findProject s pid = Some p" "hasPermission p u editor"
    and nb: "findBranch s pid (trim name) = None"
    and sb: "findBranch s pid (bodyBranch source) = Some sourceBranch"
    and v: "\<not> length (trim name) < 1" "\<not> length (trim name) > 100" "validOptional 100 source"
    by auto
  let ?s1 = "s\<lparr>nextId := nextId s + 1\<rparr>"
  let ?nb = "newBranch ?s1 (nextId s) pid (trim name) description False False u
               (Some (b_id sourceBranch))"
  obtain bo s2 where ib: "insertBranch ?s1 False ?nb = (bo, s2)" by (cases "insertBranch ?s1 False ?nb")
  show ?thesis
  proof (cases bo)
    case None
    then have "s' = s2 \<and> r = Inl ServerError" using assms p nb sb v ib
      by (simp add: createBranch_def Let_def)
    then show ?thesis using refused[OF sb ib[unfolded None]] by blast
  next
    case (Some branch)
    let ?src = "filter (\<lambda>f. f_project f = pid \<and> f_branch f = bodyBranch source \<and> \<not> f_isDeleted f)
            (files s2)"
    obtain ok s3 where cf: "copyFiles s2 pid (trim name) ?src = (ok, s3)"
      by (cases "copyFiles s2 pid (trim name) ?src")
    have "s' = (if ok then snd (updateStats s3 branch) else s3)
        \<and> r = (if ok then Inr (fst (updateStats s3 branch)) else Inl ServerError)"
      using assms p nb sb v ib Some cf
      by (cases ok) (simp_all add: createBranch_def Let_def split: prod.splits)
    then show ?thesis using copied[OF nb sb ib[unfolded Some] cf] by blast
  qed
qed

lemma createProject_stages:
  assumes "createProject s u title description readme tags isPublic digest = (r, s')"
  obtains (invalid) "s' = s"
  | (rejected) "s' = s\<lparr>nextId := nextId s + 1\<rparr>"
  | (noMain) project s3 where
      "p_id project = nextId s"
      "createMain (s\<lparr>nextId := nextId s + 1, projects := projects s @ [project]\<rparr>)
         (nextId s) u = (None, s3)"
      "s' = s3"
  | (noReadme) project mainBranch s3 where
      "p_id project = nextId s"
      "createMain (s\<lparr>nextId := nextId s + 1, projects := projects s @ [project]\<rparr>)
         (nextId s) u = (Some mainBranch, s3)"
      "s' = s3\<lparr>nextId := nextId s3 + 1\<rparr>"
  | (noCommit) project mainBranch s3 readmeContent readmeFile s5 where
      "p_id project = nextId s"
      "createMain (s\<lparr>nextId := nextId s + 1, projects := projects s @ [project]\<rparr>)
         (nextId s) u = (Some mainBranch, s3)"
      "insertFile (s3\<lparr>nextId := nextId s3 + 1\<rparr>)
         (newFile (nextId s3) (nextId s) ''/'' ''README.md'' readmeContent TFile None 0
            ''main'' None) = Some (readmeFile, s5)"
      "s' = s5\<lparr>nextId := nextId s5 + 1\<rparr>"
  | (created) project mainBranch s3 readmeContent readmeFile s5 c initialCommit s7 where
      "p_id project = nextId s"
      "createMain (s\<lparr>nextId := nextId s + 1, projects := projects s @ [project]\<rparr>)
         (nextId s) u = (Some mainBranch, s3)"
      "insertFile (s3\<lparr>nextId := nextId s3 + 1\<rparr>)
         (newFile (nextId s3) (nextId s) ''/'' ''README.md'' readmeContent TFile None 0
            ''main'' None) = Some (readmeFile, s5)"
      "insertCommit (s5\<lparr>nextId := nextId s5 + 1\<rparr>) digest c = Some (initialCommit, s7)"
      "s' = snd (updateStats (updateFile s7 (f_id readmeFile)
                   (\<lambda>f. f\<lparr>f_lastCommit := Some (c_id initialCommit)\<rparr>)) mainBranch)"
      "c_project c = nextId s"
proof (cases "length (trim title) < 1 \<or> length (trim title) > 100
         \<or> length (trim description) < 1 \<or> length (trim description) > 500
         \<or> (case readme of None \<Rightarrow> False | Some r \<Rightarrow> length r > 10000)")
  case True
  then have "s' = s" using assms by (auto simp: createProject_def)
  then show ?thesis by (rule invalid)
next
  case valid: False
  define rc where "rc = (case readme of
       None \<Rightarrow> defaultReadme (trim title) (trim description)
     | Some r \<Rightarrow> if r = [] then defaultReadme (trim title) (trim description) else r)"
  define project where "project =
     \<lparr>p_id = nextId s, p_title = trim (trim title), p_description = trim (trim description),
      p_readme = rc,
      p_tags = (case tags of None \<Rightarrow> [] | Some ts \<Rightarrow> map (\<lambda>tag. map toLower (trim tag)) ts),
      p_owner = u, p_collaborators = [],
      p_isPublic = (case isPublic of None \<Rightarrow> True | Some b \<Rightarrow> b)\<rparr>"
  have pid: "p_id project = nextId s" by (simp add: project_def)
  show ?thesis
  proof (cases "validProject project")
    case False
    then have "s' = s\<lparr>nextId := nextId s + 1\<rparr>" using assms valid
      by (simp add: createProject_def Let_def project_def rc_def)
    then show ?thesis by (rule rejected)
  next
    case vp: True
    let ?s2 = "s\<lparr>nextId := nextId s + 1, projects := projects s @ [project]\<rparr>"
    obtain bo s3 where cm: "createMain ?s2 (nextId s) u = (bo, s3)"
      by (cases "createMain ?s2 (nextId s) u")
    show ?thesis
    proof (cases bo)
      case None
      then have "s' = s3" using assms valid vp cm
        by (simp add: createProject_def Let_def project_def rc_def)
      then show ?thesis using noMain[OF pid cm[unfolded None]] by blast
    next
      case (Some mainBranch)
      note cm' = cm[unfolded Some]
      let ?nf = "newFile (nextId s3) (nextId s) ''/'' ''README.md'' rc TFile None 0 ''main'' None"
      show ?thesis
      proof (cases "insertFile (s3\<lparr>nextId := nextId s3 + 1\<rparr>) ?nf")
        case None
        then have "s' = s3\<lparr>nextId := nextId s3 + 1\<rparr>" using assms valid vp cm'
          by (simp add: createProject_def Let_def project_def rc_def)
        then show ?thesis using noReadme[OF pid cm'] by blast
      next
        case (Some a)
        obtain readmeFile s5 where a: "a = (readmeFile, s5)" by (cases a)
        note ins = Some[unfolded a]
        define c where "c = generateHash digest
                             (newCommit (nextId s5) (nextId s) ''Initial commit'' u ''main''
                                [\<lparr>ch_file = f_id readmeFile,
                                  ch_action = added,
                                  ch_filePath = ''/README.md'',
                                  ch_oldPath = None,
                                  linesAdded = lineCount rc,
                                  linesDeleted = 0\<rparr>])"
        show ?thesis
        proof (cases "insertCommit (s5\<lparr>nextId := nextId s5 + 1\<rparr>) digest c")
          case None
          then have "s' = s5\<lparr>nextId := nextId s5 + 1\<rparr>" using assms valid vp cm' ins
            by (simp add: createProject_def Let_def project_def rc_def c_def)
          then show ?thesis using noCommit[OF pid cm' ins] by blast
        next
          case (Some b)
          obtain initialCommit s7 where b: "b = (initialCommit, s7)" by (cases b)
          note ic = Some[unfolded b]
          have "s' = snd (updateStats (updateFile s7 (f_id readmeFile)
                   (\<lambda>f. f\<lparr>f_lastCommit := Some (c_id initialCommit)\<rparr>)) mainBranch)"
            using assms valid vp cm' ins ic
            by (simp add: createProject_def Let_def project_def rc_def c_def split: prod.splits)
          moreover have "c_project c = nextId s"
            by (simp add: c_def generateHash_def newCommit_def)
          ultimately show ?thesis using created[OF pid cm' ins ic] by blast
        qed
      qed
    qed
  qed
qed

lemma createBranch_commits:
  "commits (snd (createBranch s pid u name source description)) = commits s"
proof -
  obtain r s' where c: "createBranch s pid u name source description = (r, s')"
    by (cases "createBranch s pid u name source description")
  from c have "commits s' = commits s"
  proof (cases rule: createBranch_stages)
    case early
    then show ?thesis by simp
  next
    case (refused s2 sourceBranch)
    then show ?thesis using insertBranch_frame[OF refused(2)] by simp
  next
    case (copied sourceBranch branch s2 ok s3)
    have "commits s3 = commits s2" using copyFiles_frame_eq[OF copied(4)] by simp
    then show ?thesis using insertBranch_frame[OF copied(3)] copied(5) by simp
  qed
  then show ?thesis using c by simp
qed

subsection \<open>The File documents stay well-formed\<close>

lemma wfFiles_nextId:
  "wfFiles s \<Longrightarrow> files s' = files s \<Longrightarrow> nextId s \<le> nextId s' \<Longrightarrow> wfFiles s'"
  by (fastforce simp: wfFiles_def)

lemma wfFiles_updateFile:
  assumes "wfFiles s"
    and "\<And>f. f_id (upd f) = f_id f \<and> f_path (upd f) = f_path f \<and> f_name (upd f) = f_name f"
  shows "wfFiles (updateFile s i upd)"
proof -
  have "(f_id \<circ> (\<lambda>f. if f_id f = i then upd f else f)) = f_id"
    using assms(2) by auto
  then show ?thesis using assms by (auto simp: wfFiles_def updateFile_def)
qed

lemma wfFiles_insert_new:
  assumes "wfFiles s" "files s1 = files s" "nextId s \<le> i" "i < nextId s1"
    and "insertFile s1 (newFile i pid path name content ty ext sz br pd) = Some (f, s2)"
  shows "wfFiles s2"
proof -
  from insertFile_frame[OF assms(5)]
  have fs: "files s2 = files s @ [f]" and f: "f = file_pre_save (newFile i pid path name content ty ext sz br pd)"
    and n: "nextId s2 = nextId s1"
    using assms(2) by auto
  have id: "f_id f = i" "trim (f_path f) = f_path f" "trim (f_name f) = f_name f"
    by (simp_all add: f newFile_def trim_idem)
  have "i \<notin> f_id ` set (files s)" using assms(1,3) by (auto simp: wfFiles_def)
  then show ?thesis using assms(1,3,4) fs n id by (auto simp: wfFiles_def)
qed

lemma wfFiles_putFile:
  assumes "wfFiles s" "putFile s pid fileName dirPath content branch = Some (file, isNew, old, s1)"
  shows "wfFiles s1 \<and> nextId s \<le> nextId s1"
proof (cases "findLiveFile s pid fileName dirPath branch")
  case None
  with assms(2) obtain f s2 where
    i: "insertFile (s\<lparr>nextId := nextId s + 1\<rparr>)
          (newFile (nextId s) pid dirPath fileName content TFile None 0 branch None) = Some (f, s2)"
    and e: "s1 = s2"
    by (auto simp: putFile_def Let_def split: option.splits)
  have "wfFiles s2" by (rule wfFiles_insert_new[OF assms(1) _ _ _ i]) simp_all
  moreover have "nextId s2 = nextId s + 1" using insertFile_frame[OF i] by simp
  ultimately show ?thesis using e by simp
next
  case (Some a)
  with assms(2) have "s1 = updateFile s (f_id a)
        (\<lambda>f. if f_content a = content then f else f\<lparr>f_content := content, f_size := length content\<rparr>)"
    by (auto simp: putFile_def Let_def split: if_splits)
  then show ?thesis using assms(1) by (simp add: wfFiles_updateFile)
qed

lemma wfFiles_put:
  assumes "wfFiles s"
  shows "wfFiles (snd (put s pid u fp content msg br d))"
proof (cases "putFile s pid (snd (parsePath fp)) (fst (parsePath fp)) content (bodyBranch br)")
  case None
  then show ?thesis using assms by (simp add: put_eq split: option.splits)
next
  case (Some a)
  obtain fl isNew old s1 where a: "a = (fl, isNew, old, s1)" by (cases a)
  from wfFiles_putFile[OF assms Some[unfolded a]] have "wfFiles s1" ..
  then have "wfFiles (s1\<lparr>nextId := nextId s1 + 1\<rparr>)" by (rule wfFiles_nextId) simp_all
  then show ?thesis using assms Some a by (simp add: put_eq split: option.splits)
qed

lemma wfFiles_remove: "wfFiles s \<Longrightarrow> wfFiles (snd (remove s pid u fp msg br d))"
proof -
  assume wf: "wfFiles s"
  have "wfFiles ((updateFile s i (\<lambda>f. f\<lparr>f_isDeleted := True\<rparr>))\<lparr>nextId := nextId s + 1\<rparr>)" for i
    by (rule wfFiles_nextId[OF wfFiles_updateFile[OF wf]]) simp_all
  then show ?thesis using wf by (simp add: remove_eq split: option.splits)
qed

lemma wfFiles_copyFiles: "wfFiles s \<Longrightarrow> wfFiles (snd (copyFiles s pid name fs))"
proof (induction fs arbitrary: s)
  case Nil
  then show ?case by simp
next
  case (Cons f fs)
  show ?case
  proof (cases "insertFile (s\<lparr>nextId := nextId s + 1\<rparr>)
          (newFile (nextId s) pid (f_path f) (f_name f) (f_content f) (f_type f)
             (f_extension f) (f_size f) name (f_parentDirectory f))")
    case None
    then show ?thesis using wfFiles_nextId[OF Cons.prems, of "s\<lparr>nextId := nextId s + 1\<rparr>"]
      by (simp add: Let_def)
  next
    case (Some a)
    obtain g s2 where a: "a = (g, s2)" by (cases a)
    have "wfFiles s2"
      by (rule wfFiles_insert_new[OF Cons.prems _ _ _ Some[unfolded a]]) simp_all
    from Cons.IH[OF this] show ?thesis using Some a by (simp add: Let_def)
  qed
qed

lemma wfFiles_copyFiles_eq: "wfFiles s \<Longrightarrow> copyFiles s pid name fs = (ok, s3) \<Longrightarrow> wfFiles s3"
  using wfFiles_copyFiles[of s pid name fs] by simp

lemma wfFiles_createProject:
  assumes "wfFiles s"
  shows "wfFiles (snd (createProject s u title description readme tags isPublic digest))"
proof -
  obtain r s' where c: "createProject s u title description readme tags isPublic digest = (r, s')"
    by (cases "createProject s u title description readme tags isPublic digest")
  from c have "wfFiles s'"
  proof (cases rule: createProject_stages)
    case invalid
    then show ?thesis using assms by simp
  next
    case rejected
    show ?thesis unfolding rejected by (rule wfFiles_nextId[OF assms]) simp_all
  next
    case (noMain project s3)
    then show ?thesis using createMain_frame[OF noMain(2)] by (intro wfFiles_nextId[OF assms]) simp_all
  next
    case (noReadme project mainBranch s3)
    show ?thesis unfolding noReadme(3)
      using createMain_frame[OF noReadme(2)] by (intro wfFiles_nextId[OF assms]) simp_all
  next
    case (noCommit project mainBranch s3 readmeContent readmeFile s5)
    have s5: "wfFiles s5"
      using createMain_frame[OF noCommit(2)]
      by (intro wfFiles_insert_new[OF assms _ _ _ noCommit(3)]) simp_all
    show ?thesis unfolding noCommit(4) by (rule wfFiles_nextId[OF s5]) simp_all
  next
    case (created project mainBranch s3 readmeContent readmeFile s5 c initialCommit s7)
    have s5: "wfFiles s5"
      using createMain_frame[OF created(2)]
      by (intro wfFiles_insert_new[OF assms _ _ _ created(3)]) simp_all
    have s7: "wfFiles s7"
      using insertCommit_frame[OF created(4)] by (intro wfFiles_nextId[OF s5]) simp_all
    have s8: "wfFiles (updateFile s7 (f_id readmeFile)
                   (\<lambda>f. f\<lparr>f_lastCommit := Some (c_id initialCommit)\<rparr>))"
      by (rule wfFiles_updateFile[OF s7]) simp
    show ?thesis unfolding created(5) by (rule wfFiles_nextId[OF s8]) simp_all
  qed
  then show ?thesis using c by simp
qed

lemma wfFiles_createBranch:
  assumes "wfFiles s"
  shows "wfFiles (snd (createBranch s pid u name source description))"
proof -
  obtain r s' where c: "createBranch s pid u name source description = (r, s')"
    by (cases "createBranch s pid u name source description")
  from c have "wfFiles s'"
  proof (cases rule: createBranch_stages)
    case early
    then show ?thesis using assms by simp
  next
    case (refused s2 sourceBranch)
    show ?thesis unfolding refused(3)
      using insertBranch_frame[OF refused(2)] by (intro wfFiles_nextId[OF assms]) simp_all
  next
    case (copied sourceBranch branch s2 ok s3)
    have s2: "wfFiles s2"
      using insertBranch_frame[OF copied(3)] by (intro wfFiles_nextId[OF assms]) simp_all
    have s3: "wfFiles s3" by (rule wfFiles_copyFiles_eq[OF s2 copied(4)])
    show ?thesis
    proof (cases ok)
      case True
      show ?thesis unfolding copied(5) using True by (auto intro: wfFiles_nextId[OF s3])
    next
      case False
      then show ?thesis unfolding copied(5) using s3 by simp
    qed
  qed
  then show ?thesis using c by simp
qed

lemma wfFiles_patchBranch: "wfFiles s \<Longrightarrow> wfFiles (snd (patchBranch s pid u n pr de))"
  using patchBranch_frame[of s pid u n pr de] by (auto intro: wfFiles_nextId)

lemma wfFiles_deleteBranch: "wfFiles s \<Longrightarrow> wfFiles (snd (deleteBranch s pid u n))"
  using deleteBranch_frame[of s pid u n] by (auto intro: wfFiles_nextId)

lemma wfFiles_serve: "wfFiles s \<Longrightarrow> wfFiles (serve s request)"
  by (cases request)
     (simp_all add: wfFiles_createProject wfFiles_createBranch wfFiles_patchBranch
        wfFiles_deleteBranch wfFiles_put wfFiles_remove)

lemma wfFiles_serveAll: "wfFiles s \<Longrightarrow> wfFiles (serveAll s requests)"
  unfolding serveAll_def by (induction requests arbitrary: s) (simp_all add: wfFiles_serve)

subsection \<open>Every File document is a file\<close>













subsection \<open>The Branch documents stay well-formed\<close>

lemma wfBranches_frame:
  "wfBranches s \<Longrightarrow> branches s' = branches s \<Longrightarrow> projects s' = projects s
     \<Longrightarrow> nextId s \<le> nextId s' \<Longrightarrow> wfBranches s'"
  by (fastforce simp: wfBranches_def defaultBranches_def)

lemma wfBranches_updateBranch:
  assumes "wfBranches s"
    and "\<And>b. b_id (upd b) = b_id b \<and> b_project (upd b) = b_project b
               \<and> b_isDefault (upd b) = b_isDefault b"
  shows "wfBranches (updateBranch s i upd)"
proof -
  let ?g = "\<lambda>b. if b_id b = i then upd b else b"
  have 1: "(b_id \<circ> ?g) = b_id" using assms(2) by auto
  have 2: "filter (\<lambda>b. b_project b = p \<and> b_isDefault b) (map ?g (branches s))
           = map ?g (filter (\<lambda>b. b_project b = p \<and> b_isDefault b) (branches s))" for p
    using assms(2) by (induction "branches s") (auto simp: filter_map comp_def)
  have 3: "length (defaultBranches (updateBranch s i upd) p) = length (defaultBranches s p)" for p
    by (simp add: defaultBranches_def updateBranch_def 2)
  show ?thesis using assms
    by (auto simp: wfBranches_def 3 1) (auto simp: updateBranch_def 1)
qed

lemma wfBranches_updateStats: "wfBranches s \<Longrightarrow> wfBranches (snd (updateStats s b))"
  by (auto simp: updateStats_def Let_def intro!: wfBranches_updateBranch split: list.splits)

lemma wfBranches_insert_plain:
  assumes "wfBranches s" "branches s1 = branches s" "projects s1 = projects s"
    and "nextId s \<le> b_id b" "b_id b < nextId s1" "b_project b < nextId s1" "\<not> b_isDefault b"
    and "insertBranch s1 False b = (bo, s2)"
  shows "wfBranches s2"
proof -
  have "s2 = s1 \<or> s2 = s1\<lparr>branches := branches s1 @ [b]\<rparr>"
    using assms(8) by (auto simp: insertBranch_def branch_pre_save_def Let_def split: if_splits)
  then show ?thesis
  proof
    assume "s2 = s1"
    then show ?thesis using assms(1-5) by (auto intro: wfBranches_frame)
  next
    assume s2: "s2 = s1\<lparr>branches := branches s1 @ [b]\<rparr>"
    have "b_id b \<notin> b_id ` set (branches s)" using assms(1,4) by (auto simp: wfBranches_def)
    then show ?thesis using assms(1-7) s2
      by (auto simp: wfBranches_def defaultBranches_def)
  qed
qed

lemma wfBranches_createBranch:
  assumes "wfBranches s"
  shows "wfBranches (snd (createBranch s pid u name source description))"
proof -
  obtain r s' where c: "createBranch s pid u name source description = (r, s')"
    by (cases "createBranch s pid u name source description")
  have nb: "wfBranches s2"
    if "insertBranch (s\<lparr>nextId := nextId s + 1\<rparr>) False
         (newBranch (s\<lparr>nextId := nextId s + 1\<rparr>) (nextId s) pid (trim name) description
            False False u sb) = (bo, s2)" "pid < nextId s" for bo s2 sb
    by (rule wfBranches_insert_plain[OF assms _ _ _ _ _ _ that(1)])
       (use that(2) in \<open>simp_all add: newBranch_def\<close>)
  have pid: "pid < nextId s" if "findBranch s pid n = Some b" for n b
    using findBranch_Some[OF that] assms by (auto simp: wfBranches_def)
  from c show ?thesis
  proof (cases rule: createBranch_stages)
    case early
    then show ?thesis using assms c by simp
  next
    case (refused s2 sourceBranch)
    then show ?thesis using nb[OF refused(2) pid[OF refused(1)]] c by simp
  next
    case (copied sourceBranch branch s2 ok s3)
    have s2: "wfBranches s2" using nb[OF copied(3) pid[OF copied(2)]] .
    from copyFiles_frame_eq[OF copied(4)]
    have "wfBranches s3" by (intro wfBranches_frame[OF s2]) simp_all
    then show ?thesis using c copied(5) by (simp add: wfBranches_updateStats)
  qed
qed

lemma wfBranches_patchBranch:
  assumes "wfBranches s"
  shows "wfBranches (snd (patchBranch s pid u n pr de))"
proof -
  have "wfBranches (updateBranch s i
          (\<lambda>b. (let b = (case pr of None \<Rightarrow> b | Some v \<Rightarrow> b\<lparr>b_isProtected := v\<rparr>)
                in (case de of None \<Rightarrow> b | Some d \<Rightarrow> b\<lparr>b_description := Some (trim d)\<rparr>))))" for i
    by (rule wfBranches_updateBranch[OF assms]) (simp add: Let_def split: option.splits)
  then show ?thesis using assms
    by (simp add: patchBranch_def Let_def split: option.splits)
qed

lemma wfBranches_deleteBranch:
  assumes "wfBranches s"
  shows "wfBranches (snd (deleteBranch s pid u n))"
proof -
  have "wfBranches (s\<lparr>branches := filter (\<lambda>b. b_id b \<noteq> b_id br) (branches s)\<rparr>)"
    if "br \<in> set (branches s)" "\<not> b_isDefault br" for br
  proof -
    have "b = br" if "b \<in> set (branches s)" "b_id b = b_id br" for b
      using distinct_map_eq[of b_id "branches s" b br] assms that \<open>br \<in> set (branches s)\<close>
      by (simp add: wfBranches_def)
    then have "filter (\<lambda>b. b_project b = p \<and> b_isDefault b)
                 (filter (\<lambda>b. b_id b \<noteq> b_id br) (branches s))
             = filter (\<lambda>b. b_project b = p \<and> b_isDefault b) (branches s)" for p
      using \<open>\<not> b_isDefault br\<close> by (auto intro!: filter_cong)
    then show ?thesis using assms
      by (simp add: wfBranches_def defaultBranches_def distinct_map_filter)
  qed
  then show ?thesis using assms
    by (auto simp: deleteBranch_def Let_def split: option.splits dest!: findBranch_Some)
qed

lemma wfBranches_put: "wfBranches s \<Longrightarrow> wfBranches (snd (put s pid u fp content msg br d))"
  using put_frame[of s pid u fp content msg br d] by (auto intro: wfBranches_frame)

lemma wfBranches_remove: "wfBranches s \<Longrightarrow> wfBranches (snd (remove s pid u fp msg br d))"
  using remove_frame[of s pid u fp msg br d] by (auto intro: wfBranches_frame)

lemma createMain_fresh:
  assumes "\<forall>b \<in> set (branches s). b_project b \<noteq> pid"
  shows "createMain s pid u =
           (Some (newBranch (s\<lparr>nextId := nextId s + 1\<rparr>) (nextId s) pid ''main''
                    (Some ''Main branch'') True True u None),
            s\<lparr>nextId := nextId s + 1,
              branches := branches s @
                 [newBranch (s\<lparr>nextId := nextId s + 1\<rparr>) (nextId s) pid ''main''
                    (Some ''Main branch'') True True u None]\<rparr>)"
proof -
  have "map (\<lambda>b. if b_project b = pid \<and> b_id b \<noteq> nextId s
                  then b\<lparr>b_isDefault := False\<rparr> else b) (branches s) = branches s"
    using assms by (induction "branches s") (auto intro: map_idI)
  then show ?thesis using assms
    by (auto simp: createMain_def insertBranch_def branch_pre_save_def Let_def newBranch_def
          validBranch_def trim_def isSpace_def)
qed

lemma wfBranches_createMain:
  assumes "wfBranches s" "p_id project = nextId s"
    and "createMain (s\<lparr>nextId := nextId s + 1, projects := projects s @ [project]\<rparr>)
           (nextId s) u = (bo, s3)"
  shows "wfBranches s3 \<and> bo \<noteq> None"
proof -
  let ?s2 = "s\<lparr>nextId := nextId s + 1, projects := projects s @ [project]\<rparr>"
  let ?mb = "newBranch (?s2\<lparr>nextId := nextId ?s2 + 1\<rparr>) (nextId ?s2) (nextId s) ''main''
                    (Some ''Main branch'') True True u None"
  have fresh: "\<forall>b \<in> set (branches ?s2). b_project b \<noteq> nextId s"
    using assms(1) by (auto simp: wfBranches_def)
  from createMain_fresh[OF fresh, of u] assms(3)
  have bo: "bo = Some ?mb" and s3: "s3 = ?s2\<lparr>nextId := nextId ?s2 + 1,
                                              branches := branches ?s2 @ [?mb]\<rparr>"
    by simp_all
  have bs: "branches s3 = branches s @ [?mb]" and ps: "projects s3 = projects s @ [project]"
    and n: "nextId s3 = nextId s + 2"
    by (simp_all add: s3)
  have old: "defaultBranches s3 (p_id p) = defaultBranches s (p_id p)"
    if "p \<in> set (projects s)" for p
  proof -
    have "p_id p \<noteq> nextId s" using that assms(1) by (auto simp: wfBranches_def)
    then show ?thesis by (simp add: defaultBranches_def bs)
  qed
  have "filter (\<lambda>b. b_project b = nextId s \<and> b_isDefault b) (branches s) = []"
    using fresh by (simp add: filter_empty_conv)
  then have new: "defaultBranches s3 (nextId s) = [?mb]"
    by (simp add: defaultBranches_def bs)
  have lt: "\<forall>b \<in> set (branches s). b_id b < nextId s \<and> b_project b < nextId s"
    using assms(1) by (simp add: wfBranches_def)
  then have "nextId s + 1 \<notin> b_id ` set (branches s)" by fastforce
  then have "distinct (map b_id (branches s3))"
    using assms(1) by (simp add: bs wfBranches_def)
  moreover have "\<forall>b \<in> set (branches s3). b_id b < nextId s3 \<and> b_project b < nextId s3"
    using lt by (fastforce simp: bs n)
  moreover have "\<forall>p \<in> set (projects s3). p_id p < nextId s3
                    \<and> length (defaultBranches s3 (p_id p)) = 1"
  proof
    fix p assume "p \<in> set (projects s3)"
    then consider "p \<in> set (projects s)" | "p = project" by (auto simp: ps)
    then show "p_id p < nextId s3 \<and> length (defaultBranches s3 (p_id p)) = 1"
    proof cases
      case 1
      then have "p_id p < nextId s \<and> length (defaultBranches s (p_id p)) = 1"
        using assms(1) by (simp add: wfBranches_def)
      then show ?thesis using old[OF 1] by (simp add: n)
    next
      case 2
      then show ?thesis using new assms(2) by (simp add: n)
    qed
  qed
  ultimately show ?thesis using bo by (simp add: wfBranches_def)
qed

lemma wfBranches_createProject:
  assumes "wfBranches s"
  shows "wfBranches (snd (createProject s u title description readme tags isPublic digest))"
proof -
  obtain r s' where c: "createProject s u title description readme tags isPublic digest = (r, s')"
    by (cases "createProject s u title description readme tags isPublic digest")
  from c have "wfBranches s'"
  proof (cases rule: createProject_stages)
    case invalid
    then show ?thesis using assms by simp
  next
    case rejected
    show ?thesis unfolding rejected by (rule wfBranches_frame[OF assms]) simp_all
  next
    case (noMain project s3)
    then show ?thesis using wfBranches_createMain[OF assms noMain(1,2)] by simp
  next
    case (noReadme project mainBranch s3)
    from wfBranches_createMain[OF assms noReadme(1,2)] have s3: "wfBranches s3" ..
    show ?thesis unfolding noReadme(3) by (rule wfBranches_frame[OF s3]) simp_all
  next
    case (noCommit project mainBranch s3 readmeContent readmeFile s5)
    from wfBranches_createMain[OF assms noCommit(1,2)] have s3: "wfBranches s3" ..
    show ?thesis unfolding noCommit(4)
      using insertFile_frame[OF noCommit(3)] by (intro wfBranches_frame[OF s3]) simp_all
  next
    case (created project mainBranch s3 readmeContent readmeFile s5 c initialCommit s7)
    from wfBranches_createMain[OF assms created(1,2)] have s3: "wfBranches s3" ..
    have s7: "wfBranches s7"
      using insertFile_frame[OF created(3)] insertCommit_frame[OF created(4)]
      by (intro wfBranches_frame[OF s3]) simp_all
    have "wfBranches (updateFile s7 (f_id readmeFile)
                   (\<lambda>f. f\<lparr>f_lastCommit := Some (c_id initialCommit)\<rparr>))"
      by (rule wfBranches_frame[OF s7]) simp_all
    then show ?thesis unfolding created(5) by (rule wfBranches_updateStats)
  qed
  then show ?thesis using c by simp
qed

subsection \<open>The hashes stay apart\<close>

lemma wfHashes_createProject:
  assumes "wfHashes s"
  shows "wfHashes (snd (createProject s u title description readme tags isPublic digest))"
proof -
  obtain r s' where c: "createProject s u title description readme tags isPublic digest = (r, s')"
    by (cases "createProject s u title description readme tags isPublic digest")
  from c have "wfHashes s'"
  proof (cases rule: createProject_stages)
    case invalid
    then show ?thesis using assms by simp
  next
    case rejected
    then show ?thesis using assms by (simp add: wfHashes_def)
  next
    case (noMain project s3)
    then show ?thesis using createMain_frame[OF noMain(2)] assms by (simp add: wfHashes_def)
  next
    case (noReadme project mainBranch s3)
    then show ?thesis using createMain_frame[OF noReadme(2)] assms by (simp add: wfHashes_def)
  next
    case (noCommit project mainBranch s3 readmeContent readmeFile s5)
    then show ?thesis
      using createMain_frame[OF noCommit(2)] insertFile_frame[OF noCommit(3)] assms
      by (simp add: wfHashes_def)
  next
    case (created project mainBranch s3 readmeContent readmeFile s5 c initialCommit s7)
    have "commits s5 = commits s"
      using createMain_frame[OF created(2)] insertFile_frame[OF created(3)] by simp
    then show ?thesis using insertCommit_commits[OF created(4)] assms created(5)
      by (simp add: wfHashes_def)
  qed
  then show ?thesis using c by simp
qed

subsection \<open>Every request keeps the store well-formed\<close>

lemma wellFormed_serve: "wellFormed s \<Longrightarrow> wellFormed (serve s request)"
proof (cases request)
  case (CreateProject u title description readme tags isPublic digest)
  then show "wellFormed s \<Longrightarrow> ?thesis"
    by (simp add: wellFormed_def wfFiles_createProject wfBranches_createProject
          wfHashes_createProject)
next
  case (CreateBranch pid u name source description)
  then show "wellFormed s \<Longrightarrow> ?thesis"
    by (simp add: wellFormed_def wfFiles_createBranch wfBranches_createBranch wfHashes_def
          createBranch_commits)
next
  case (PatchBranch pid u n pr de)
  then show "wellFormed s \<Longrightarrow> ?thesis"
    using patchBranch_frame[of s pid u n pr de]
    by (simp add: wellFormed_def wfFiles_patchBranch wfBranches_patchBranch wfHashes_def)
next
  case (DeleteBranch pid u n)
  then show "wellFormed s \<Longrightarrow> ?thesis"
    using deleteBranch_frame[of s pid u n]
    by (simp add: wellFormed_def wfFiles_deleteBranch wfBranches_deleteBranch wfHashes_def)
next
  case (Put pid u fp content msg br d)
  then show "wellFormed s \<Longrightarrow> ?thesis"
    by (simp add: wellFormed_def wfFiles_put wfBranches_put wfHashes_def put_commits)
next
  case (Remove pid u fp msg br d)
  then show "wellFormed s \<Longrightarrow> ?thesis"
    by (simp add: wellFormed_def wfFiles_remove wfBranches_remove wfHashes_def remove_commits)
qed

lemma wellFormed_serveAll: "wellFormed s \<Longrightarrow> wellFormed (serveAll s requests)"
  unfolding serveAll_def by (induction requests arbitrary: s) (simp_all add: wellFormed_serve)

lemma wellFormed_empty: "wellFormed empty_store"
  by (simp add: wellFormed_def wfFiles_def wfBranches_def wfHashes_def empty_store_def)

subsection \<open>The commits of a store\<close>

text \<open>
  \<^verbatim>\<open>POST /\<close> stores the initial commit of the project it creates, and no other request
  stores a commit: a project has one commit, whose statistics the pre-save hook has
  aggregated.
\<close>

lemma commit_pre_save_fields:
  "c_stats (commit_pre_save digest c) = aggregates (c_changes c)"
  "c_changes (commit_pre_save digest c) = c_changes c"
  "c_project (commit_pre_save digest c) = c_project c"
  by (simp_all add: commit_pre_save_def calculateStats_def generateHash_def aggregates_def
        foldl_plus)

lemma wfCommits_frame:
  "wfCommits s \<Longrightarrow> commits s' = commits s \<Longrightarrow> nextId s \<le> nextId s' \<Longrightarrow> wfCommits s'"
  by (fastforce simp: wfCommits_def)

lemma wfCommits_createProject:
  assumes "wfCommits s"
  shows "wfCommits (snd (createProject s u title description readme tags isPublic digest))"
proof -
  obtain r s' where c: "createProject s u title description readme tags isPublic digest = (r, s')"
    by (cases "createProject s u title description readme tags isPublic digest")
  from c have "wfCommits s'"
  proof (cases rule: createProject_stages)
    case invalid
    then show ?thesis using assms by simp
  next
    case rejected
    show ?thesis unfolding rejected by (rule wfCommits_frame[OF assms]) simp_all
  next
    case (noMain project s3)
    then show ?thesis using createMain_frame[OF noMain(2)]
      by (intro wfCommits_frame[OF assms]) simp_all
  next
    case (noReadme project mainBranch s3)
    show ?thesis unfolding noReadme(3)
      using createMain_frame[OF noReadme(2)] by (intro wfCommits_frame[OF assms]) simp_all
  next
    case (noCommit project mainBranch s3 readmeContent readmeFile s5)
    show ?thesis unfolding noCommit(4)
      using createMain_frame[OF noCommit(2)] insertFile_frame[OF noCommit(3)]
      by (intro wfCommits_frame[OF assms]) simp_all
  next
    case (created project mainBranch s3 readmeContent readmeFile s5 c initialCommit s7)
    have s5: "commits s5 = commits s" "nextId s5 = nextId s + 3"
      using createMain_frame[OF created(2)] insertFile_frame[OF created(3)] by simp_all
    have c7: "commits s7 = commits s @ [initialCommit]" and n7: "nextId s7 = nextId s + 4"
      using insertCommit_commits[OF created(4)] insertCommit_frame[OF created(4)] s5 by simp_all
    have ic: "c_project initialCommit = nextId s"
      "c_stats initialCommit = aggregates (c_changes initialCommit)"
      using insertCommit_result[OF created(4)] created(6) by (simp_all add: commit_pre_save_fields)
    have "nextId s \<notin> c_project ` set (commits s)" using assms by (auto simp: wfCommits_def)
    then have "wfCommits s7" using assms c7 n7 ic by (auto simp: wfCommits_def)
    then show ?thesis unfolding created(5) by (rule wfCommits_frame) simp_all
  qed
  then show ?thesis using c by simp
qed

lemma createBranch_nextId:
  "nextId s \<le> nextId (snd (createBranch s pid u name source description))"
proof -
  obtain r s' where c: "createBranch s pid u name source description = (r, s')"
    by (cases "createBranch s pid u name source description")
  from c have "nextId s \<le> nextId s'"
  proof (cases rule: createBranch_stages)
    case early
    then show ?thesis by simp
  next
    case (refused s2 sourceBranch)
    then show ?thesis using insertBranch_frame[OF refused(2)] by simp
  next
    case (copied sourceBranch branch s2 ok s3)
    have "nextId s2 \<le> nextId s3" using copyFiles_frame_eq[OF copied(4)] by simp
    then show ?thesis using insertBranch_frame[OF copied(3)] copied(5) by simp
  qed
  then show ?thesis using c by simp
qed

lemma wfCommits_serve: "wfCommits s \<Longrightarrow> wfCommits (serve s request)"
proof (cases request)
  case (CreateProject u title description readme tags isPublic digest)
  then show "wfCommits s \<Longrightarrow> ?thesis" by (simp add: wfCommits_createProject)
next
  case (CreateBranch pid u name source description)
  then show "wfCommits s \<Longrightarrow> ?thesis"
    using createBranch_nextId[of s pid u name source description]
    by (auto intro: wfCommits_frame simp: createBranch_commits)
next
  case (PatchBranch pid u n pr de)
  then show "wfCommits s \<Longrightarrow> ?thesis"
    using patchBranch_frame[of s pid u n pr de] by (auto intro: wfCommits_frame)
next
  case (DeleteBranch pid u n)
  then show "wfCommits s \<Longrightarrow> ?thesis"
    using deleteBranch_frame[of s pid u n] by (auto intro: wfCommits_frame)
next
  case (Put pid u fp content msg br d)
  then show "wfCommits s \<Longrightarrow> ?thesis"
    using put_frame[of s pid u fp content msg br d]
    by (auto intro: wfCommits_frame simp: put_commits)
next
  case (Remove pid u fp msg br d)
  then show "wfCommits s \<Longrightarrow> ?thesis"
    using remove_frame[of s pid u fp msg br d]
    by (auto intro: wfCommits_frame simp: remove_commits)
qed

lemma wfCommits_serveAll: "wfCommits s \<Longrightarrow> wfCommits (serveAll s requests)"
  unfolding serveAll_def by (induction requests arbitrary: s) (simp_all add: wfCommits_serve)

lemma wfCommits_empty: "wfCommits empty_store"
  by (simp add: wfCommits_def empty_store_def)

subsection \<open>Forks\<close>

lemma filter_map_unchanged:
  "(\<And>x. x \<in> set xs \<Longrightarrow> P (g x) = P x \<and> (P x \<longrightarrow> g x = x)) \<Longrightarrow> filter P (map g xs) = filter P xs"
  by (induction xs) auto

lemma branchFiles_frame: "files s' = files s \<Longrightarrow> branchFiles s' pid b = branchFiles s pid b"
  by (simp add: branchFiles_def)

lemma updateFile_other_branch:
  assumes "wfFiles s" "a \<in> set (files s)" "f_branch a \<noteq> y"
    and "\<And>f. f_project (upd f) = f_project f \<and> f_branch (upd f) = f_branch f"
  shows "branchFiles (updateFile s (f_id a) upd) pid y = branchFiles s pid y"
proof -
  let ?P = "\<lambda>f. f_project f = pid \<and> f_branch f = y"
  let ?g = "\<lambda>f. if f_id f = f_id a then upd f else f"
  have eq: "f = a" if "f \<in> set (files s)" "f_id f = f_id a" for f
    using distinct_map_eq[of f_id "files s" f a] assms(1,2) that by (simp add: wfFiles_def)
  have "?P (?g f) = ?P f \<and> (?P f \<longrightarrow> ?g f = f)" if "f \<in> set (files s)" for f
  proof (cases "f_id f = f_id a")
    case True
    then have "f = a" using eq that by simp
    then show ?thesis using assms(3,4) by simp
  next
    case False
    then show ?thesis by simp
  qed
  then have "filter ?P (map ?g (files s)) = filter ?P (files s)"
    by (rule filter_map_unchanged)
  then show ?thesis by (simp add: branchFiles_def updateFile_def)
qed

lemma putFile_other_branch:
  assumes "wfFiles s" "putFile s pid fileName dirPath content x = Some (fl, isNew, old, s1)"
    and "x \<noteq> y"
  shows "branchFiles s1 pid y = branchFiles s pid y"
proof (cases "findLiveFile s pid fileName dirPath x")
  case None
  with assms(2) obtain f s2 where
    i: "insertFile (s\<lparr>nextId := nextId s + 1\<rparr>)
          (newFile (nextId s) pid dirPath fileName content TFile None 0 x None) = Some (f, s2)"
    and e: "s1 = s2"
    by (auto simp: putFile_def Let_def split: option.splits)
  from insertFile_frame[OF i] have "files s2 = files s @ [f]" "f_branch f = x"
    by (simp_all add: newFile_def)
  then show ?thesis using e assms(3) by (simp add: branchFiles_def)
next
  case (Some a)
  with assms(2) have s1: "s1 = updateFile s (f_id a)
        (\<lambda>f. if f_content a = content then f else f\<lparr>f_content := content, f_size := length content\<rparr>)"
    by (auto simp: putFile_def Let_def split: if_splits)
  from findLiveFile_Some[OF Some] have "a \<in> set (files s)" "f_branch a \<noteq> y"
    using assms(3) by auto
  then show ?thesis unfolding s1 by (intro updateFile_other_branch[OF assms(1)]) simp_all
qed

lemma put_other_branch:
  assumes "wfFiles s" "bodyBranch br \<noteq> y"
  shows "branchFiles (snd (put s pid u fp content msg br d)) pid y = branchFiles s pid y"
proof (cases "putFile s pid (snd (parsePath fp)) (fst (parsePath fp)) content (bodyBranch br)")
  case None
  then show ?thesis by (simp add: put_eq split: option.splits)
next
  case (Some a)
  obtain fl isNew old s1 where a: "a = (fl, isNew, old, s1)" by (cases a)
  from putFile_other_branch[OF assms(1) Some[unfolded a] assms(2)]
  have "branchFiles (s1\<lparr>nextId := nextId s1 + 1\<rparr>) pid y = branchFiles s pid y"
    by (simp add: branchFiles_def)
  then show ?thesis using Some a by (simp add: put_eq split: option.splits)
qed

lemma remove_other_branch:
  assumes "wfFiles s" "bodyBranch br \<noteq> y"
  shows "branchFiles (snd (remove s pid u fp msg br d)) pid y = branchFiles s pid y"
proof (cases "findLiveFile s pid (snd (parsePath fp)) (fst (parsePath fp)) (bodyBranch br)")
  case None
  then show ?thesis by (simp add: remove_eq split: option.splits)
next
  case (Some a)
  from findLiveFile_Some[OF Some] have "a \<in> set (files s)" "f_branch a \<noteq> y"
    using assms(2) by auto
  then have "branchFiles (updateFile s (f_id a) (\<lambda>f. f\<lparr>f_isDeleted := True\<rparr>)) pid y
             = branchFiles s pid y"
    by (intro updateFile_other_branch[OF assms(1)]) simp_all
  then have "branchFiles ((updateFile s (f_id a) (\<lambda>f. f\<lparr>f_isDeleted := True\<rparr>))
                 \<lparr>nextId := nextId s + 1\<rparr>) pid y = branchFiles s pid y"
    by (simp add: branchFiles_def)
  then show ?thesis using Some by (simp add: remove_eq split: option.splits)
qed

lemma write_other_branch:
  assumes "wfFiles s" "writesOn pid x request" "x \<noteq> y"
  shows "branchFiles (serve s request) pid y = branchFiles s pid y"
  using assms by (cases request) (simp_all add: put_other_branch remove_other_branch)

lemma copyFiles_copies:
  "copyFiles s pid name fs = (True, s3) \<Longrightarrow>
     \<exists>gs. files s3 = files s @ gs \<and> list_all2 (copyOf pid name) fs gs
          \<and> (\<forall>g \<in> set gs. nextId s \<le> f_id g)"
proof (induction fs arbitrary: s)
  case Nil
  then show ?case by simp
next
  case (Cons f fs)
  let ?nf = "newFile (nextId s) pid (f_path f) (f_name f) (f_content f) (f_type f)
             (f_extension f) (f_size f) name (f_parentDirectory f)"
  show ?case
  proof (cases "insertFile (s\<lparr>nextId := nextId s + 1\<rparr>) ?nf")
    case None
    then show ?thesis using Cons.prems by (simp add: Let_def)
  next
    case (Some a)
    obtain g s2 where a: "a = (g, s2)" by (cases a)
    note ins = insertFile_frame[OF Some[unfolded a]]
    have "copyFiles s2 pid name fs = (True, s3)" using Cons.prems Some a by (simp add: Let_def)
    from Cons.IH[OF this] obtain gs where gs: "files s3 = files s2 @ gs"
      "list_all2 (copyOf pid name) fs gs" "\<forall>g \<in> set gs. nextId s2 \<le> f_id g"
      by blast
    have g: "copyOf pid name f g" "f_id g = nextId s"
      using ins by (simp_all add: copyOf_def newFile_def)
    have "files s3 = files s @ (g # gs)" using gs(1) ins by simp
    moreover have "list_all2 (copyOf pid name) (f # fs) (g # gs)" using g gs(2) by simp
    moreover have "\<forall>h \<in> set (g # gs). nextId s \<le> f_id h" using g gs(3) ins by auto
    ultimately show ?thesis by blast
  qed
qed

lemma list_all2_exists: "list_all2 P xs ys \<Longrightarrow> x \<in> set xs \<Longrightarrow> \<exists>y \<in> set ys. P x y"
  by (induction rule: list_all2_induct) auto

lemma createBranch_copies:
  assumes "createBranch s pid u name source description = (Inr b, s')"
  shows "\<exists>gs. files s' = files s @ gs
           \<and> list_all2 (copyOf pid (trim name)) (liveFiles s pid (bodyBranch source)) gs
           \<and> (\<forall>g \<in> set gs. nextId s \<le> f_id g)
           \<and> trim name \<noteq> bodyBranch source"
  using assms
proof (cases rule: createBranch_stages)
  case early
  then show ?thesis by simp
next
  case (refused s2 sourceBranch)
  then show ?thesis by simp
next
  case (copied sourceBranch branch s2 ok s3)
  have ok: ok using copied(6) by (cases ok) simp_all
  note fr = insertBranch_frame[OF copied(3)]
  have src: "filter (\<lambda>f. f_project f = pid \<and> f_branch f = bodyBranch source \<and> \<not> f_isDeleted f)
               (files s2) = liveFiles s pid (bodyBranch source)"
    using fr by (auto simp: liveFiles_def branchFiles_def intro: filter_cong)
  have "copyFiles s2 pid (trim name) (liveFiles s pid (bodyBranch source)) = (True, s3)"
    using copied(4) src ok by simp
  from copyFiles_copies[OF this] obtain gs where
    gs: "files s3 = files s2 @ gs"
      "list_all2 (copyOf pid (trim name)) (liveFiles s pid (bodyBranch source)) gs"
      "\<forall>g \<in> set gs. nextId s2 \<le> f_id g"
    by blast
  have ne: "trim name \<noteq> bodyBranch source"
  proof
    assume e: "trim name = bodyBranch source"
    from copied(2) have "findBranch s pid (trim name) = Some sourceBranch" by (simp add: e)
    with copied(1) show False by simp
  qed
  have "files s' = files s @ gs" using copied(5) ok gs(1) fr by simp
  moreover have "\<forall>g \<in> set gs. nextId s \<le> f_id g" using gs(3) fr by auto
  ultimately show ?thesis using gs(2) ne by blast
qed

text \<open>
  C1. Take a store whose File documents have identifiers of their own, below the counter,
  and trimmed paths and names, as in every store that the requests reach from the empty
  store. A fork that succeeds leaves, for every File of the source branch that is not
  deleted, a File of the new branch that is not deleted, with the same path, name and
  content, no last commit and an identifier that no File had before. After that, whatever
  requests follow, a write or a delete on the new branch leaves the Files of the source
  branch as they are, and a write or a delete on the source branch leaves the Files of the
  new branch as they are.
\<close>

theorem fork_is_point_in_time_copy:
  assumes "wfFiles s"
    and "createBranch s projectId userId name source description = (Inr branch, s')"
  shows "(\<forall>f \<in> set (liveFiles s projectId (bodyBranch source)).
            \<exists>g \<in> set (liveFiles s' projectId (trim name)).
              f_path g = f_path f \<and> f_name g = f_name f \<and> f_content g = f_content f
              \<and> f_lastCommit g = None \<and> f_id g \<notin> f_id ` set (files s))
     \<and> (\<forall>later request. writesOn projectId (trim name) request \<longrightarrow>
           branchFiles (serve (serveAll s' later) request) projectId (bodyBranch source)
             = branchFiles (serveAll s' later) projectId (bodyBranch source))
     \<and> (\<forall>later request. writesOn projectId (bodyBranch source) request \<longrightarrow>
           branchFiles (serve (serveAll s' later) request) projectId (trim name)
             = branchFiles (serveAll s' later) projectId (trim name))"
proof -
  have "s' = serve s (CreateBranch projectId userId name source description)"
    using assms(2) by simp
  then have wf': "wfFiles s'"
    using wfFiles_serve[OF assms(1), of "CreateBranch projectId userId name source description"]
    by simp
  have later: "wfFiles (serveAll s' later)" for later
    by (rule wfFiles_serveAll[OF wf'])
  from createBranch_copies[OF assms(2)] obtain gs where
    gs: "files s' = files s @ gs"
      "list_all2 (copyOf projectId (trim name)) (liveFiles s projectId (bodyBranch source)) gs"
      "\<forall>g \<in> set gs. nextId s \<le> f_id g"
    and ne: "trim name \<noteq> bodyBranch source"
    by blast
  have 1: "\<exists>g \<in> set (liveFiles s' projectId (trim name)).
              f_path g = f_path f \<and> f_name g = f_name f \<and> f_content g = f_content f
              \<and> f_lastCommit g = None \<and> f_id g \<notin> f_id ` set (files s)"
    if f: "f \<in> set (liveFiles s projectId (bodyBranch source))" for f
  proof -
    from list_all2_exists[OF gs(2) f] obtain g where g: "g \<in> set gs"
      "copyOf projectId (trim name) f g" by blast
    have "f \<in> set (files s)" using f by (simp add: liveFiles_def branchFiles_def)
    then have tr: "trim (f_path f) = f_path f" "trim (f_name f) = f_name f"
      using assms(1) by (simp_all add: wfFiles_def)
    have "\<forall>h \<in> set (files s). f_id h < nextId s" using assms(1) by (simp add: wfFiles_def)
    then have fresh: "f_id g \<notin> f_id ` set (files s)" using gs(3) g(1) by fastforce
    have "g \<in> set (liveFiles s' projectId (trim name))"
      using g gs(1) by (simp add: liveFiles_def branchFiles_def copyOf_def)
    then show ?thesis using g(2) tr fresh by (auto simp: copyOf_def)
  qed
  have 2: "branchFiles (serve (serveAll s' later) request) projectId (bodyBranch source)
             = branchFiles (serveAll s' later) projectId (bodyBranch source)"
    if "writesOn projectId (trim name) request" for later request
    by (rule write_other_branch[OF later that ne])
  have 3: "branchFiles (serve (serveAll s' later) request) projectId (trim name)
             = branchFiles (serveAll s' later) projectId (trim name)"
    if "writesOn projectId (bodyBranch source) request" for later request
    by (rule write_other_branch[OF later that ne[symmetric]])
  show ?thesis using 1 2 3 by blast
qed

theorem fork_is_point_in_time_copy_witness:
  "wfFiles demoProject
   \<and> createBranch demoProject 0 7 ''feature'' (Some ''main'') None
       = (Inr (last (branches demoFork)), demoFork)
   \<and> hd (files demoProject) \<in> set (liveFiles demoProject 0 ''main'')
   \<and> map f_content (liveFiles demoFork 0 ''feature'') = [helloWorld]
   \<and> writesOn 0 ''feature''
        (Put 0 7 ''README.md'' helloWorldMore ''more'' (Some ''feature'') demoDigest2)
   \<and> branchFiles demoWrite 0 ''main'' = branchFiles demoFork 0 ''main''"
proof -
  have "serveAll empty_store
       [CreateProject 7 ''P'' ''demo'' (Some helloWorld) None None demoDigest] = demoProject"
    by (simp add: serveAll_def demoProject_def)
  then have wf: "wfFiles demoProject"
    using wellFormed_serveAll[OF wellFormed_empty,
            of "[CreateProject 7 ''P'' ''demo'' (Some helloWorld) None None demoDigest]"]
    by (simp add: wellFormed_def)
  have c: "createBranch demoProject 0 7 ''feature'' (Some ''main'') None
             = (Inr (last (branches demoFork)), demoFork)"
    unfolding demoFork_eq by (simp add: demoProject_eq demo_defs model_defs)
  have t: "trim ''feature'' = ''feature''" "bodyBranch (Some ''main'') = ''main''"
    by (simp_all add: trim_def isSpace_def bodyBranch_def)
  have w: "writesOn 0 ''feature''
        (Put 0 7 ''README.md'' helloWorldMore ''more'' (Some ''feature'') demoDigest2)"
    by (simp add: bodyBranch_def trim_def isSpace_def)
  have l: "hd (files demoProject) \<in> set (liveFiles demoProject 0 ''main'')"
    "map f_content (liveFiles demoFork 0 ''feature'') = [helloWorld]"
    by (simp_all add: liveFiles_def branchFiles_def demoFork_eq demoProject_eq)
  have d: "demoWrite = serve (serveAll demoFork [])
             (Put 0 7 ''README.md'' helloWorldMore ''more'' (Some ''feature'') demoDigest2)"
    "serveAll demoFork [] = demoFork"
    by (simp_all add: demoWrite_def serveAll_def)
  from fork_is_point_in_time_copy[OF wf c, unfolded t] w
  have "branchFiles demoWrite 0 ''main'' = branchFiles demoFork 0 ''main''"
    unfolding d(1) using d(2) by metis
  then show ?thesis using wf c l w by simp
qed

text \<open>
  A fork that does not succeed. The first save of a File validates the document before the
  hook derives the extension from the name, so an extension of more than ten characters is
  stored; a fork hands the extension to the constructor of the copy, whose save then fails
  the \<^verbatim>\<open>maxlength\<close> of \<^verbatim>\<open>extension\<close>. The fork is answered with 500, and the files that
  were copied before stay.
\<close>

lemma fork_stops_at_long_extension:
  "map f_extension (liveFiles demoLongExtension 0 ''main'') = [Some ''md'', Some ''markdown-draft'']
   \<and> fst (createBranch demoLongExtension 0 7 ''feature'' None None) = Inl ServerError
   \<and> map f_name (liveFiles (snd (createBranch demoLongExtension 0 7 ''feature'' None None))
                 0 ''feature'') = [''README.md'']"
  by (simp add: demoLongExtension_def liveFiles_def branchFiles_def demoProject_eq demo_defs
        model_defs)

subsection \<open>The default branch\<close>

text \<open>
  C2. In every store that the requests reach from the empty store (creating projects, which
  calls \<^verbatim>\<open>createMain\<close>; creating, updating and deleting branches; writing and deleting
  files), every project has exactly one branch with \<^verbatim>\<open>isDefault = true\<close>. And the pre-save
  hook of a branch whose \<^verbatim>\<open>isDefault\<close> is set and was modified leaves no other branch of
  the project with the flag.
\<close>

theorem exactly_one_default_branch:
  "(\<forall>project \<in> set (projects (serveAll empty_store requests)).
      length (defaultBranches (serveAll empty_store requests) (p_id project)) = 1)
   \<and> (\<forall>b \<in> set (branches (branch_pre_save s True this)).
        b_isDefault this \<and> b_project b = b_project this \<and> b_id b \<noteq> b_id this
          \<longrightarrow> \<not> b_isDefault b)"
proof -
  have "wfBranches (serveAll empty_store requests)"
    using wellFormed_serveAll[OF wellFormed_empty, of requests] by (simp add: wellFormed_def)
  then show ?thesis by (auto simp: wfBranches_def branch_pre_save_def)
qed

theorem exactly_one_default_branch_witness:
  "serveAll empty_store
     [CreateProject 7 ''P'' ''demo'' (Some helloWorld) None None demoDigest,
      CreateBranch 0 7 ''feature'' (Some ''main'') None] = demoFork
   \<and> hd (projects demoFork) \<in> set (projects demoFork)
   \<and> length (defaultBranches demoFork (p_id (hd (projects demoFork)))) = 1
   \<and> map b_isDefault (branches demoFork) = [True, False]
   \<and> map b_isDefault
        (branches (branch_pre_save demoFork True ((last (branches demoFork))\<lparr>b_isDefault := True\<rparr>)))
       = [False, False]"
proof -
  have r: "serveAll empty_store
     [CreateProject 7 ''P'' ''demo'' (Some helloWorld) None None demoDigest,
      CreateBranch 0 7 ''feature'' (Some ''main'') None] = demoFork"
    by (simp add: serveAll_def demoFork_def demoProject_def)
  have p: "hd (projects demoFork) \<in> set (projects demoFork)"
    by (simp add: demoFork_eq demoProject_eq)
  have m: "map b_isDefault (branches demoFork) = [True, False]"
    "map b_isDefault
        (branches (branch_pre_save demoFork True ((last (branches demoFork))\<lparr>b_isDefault := True\<rparr>)))
       = [False, False]"
    by (simp_all add: demoFork_eq demoProject_eq branch_pre_save_def)
  from exactly_one_default_branch[of
      "[CreateProject 7 ''P'' ''demo'' (Some helloWorld) None None demoDigest,
        CreateBranch 0 7 ''feature'' (Some ''main'') None]" demoFork
      "(last (branches demoFork))\<lparr>b_isDefault := True\<rparr>"]
  show ?thesis using r p m by simp
qed

subsection \<open>Divergence\<close>

lemma branchCommits_set: "set (branchCommits s p b) = set (commitsOn s p b)"
  by (simp add: branchCommits_def commitsOn_def set_sort_by)

lemma length_filter_branchCommits:
  "length (filter P (branchCommits s p b)) = length (filter P (commitsOn s p b))"
  by (simp add: branchCommits_def commitsOn_def length_filter_sort_by)

lemma hashes_branchCommits: "set (map c_hash (branchCommits s p b)) = hashesOn s p b"
  by (simp add: hashesOn_def branchCommits_set)

text \<open>
  C3. \<^verbatim>\<open>calculateDifference\<close> on branch \<open>a\<close> with the name of \<open>b\<close> as target sets
  \<^verbatim>\<open>commitsAhead\<close> to the number of commits recorded on \<open>a\<close> whose hash is not among the
  hashes of the commits of \<open>b\<close>, and \<^verbatim>\<open>commitsBehind\<close> to the number of commits recorded on
  \<open>b\<close> whose hash is not among those of \<open>a\<close>; for two branches of one project, what \<open>a\<close>
  is ahead of \<open>b\<close> is what \<open>b\<close> is behind \<open>a\<close>.
\<close>

theorem calculateDifference_ahead_behind:
  "commitsAhead (b_stats (fst (calculateDifference s a (b_name b))))
     = length (filter (\<lambda>c. c_hash c \<notin> hashesOn s (b_project a) (b_name b))
                (commitsOn s (b_project a) (b_name a)))
   \<and> commitsBehind (b_stats (fst (calculateDifference s a (b_name b))))
     = length (filter (\<lambda>c. c_hash c \<notin> hashesOn s (b_project a) (b_name a))
                (commitsOn s (b_project a) (b_name b)))
   \<and> (b_project a = b_project b \<longrightarrow>
        commitsAhead (b_stats (fst (calculateDifference s a (b_name b))))
          = commitsBehind (b_stats (fst (calculateDifference s b (b_name a)))))"
  by (simp add: calculateDifference_def Let_def length_filter_branchCommits
        hashes_branchCommits del: set_map)

theorem calculateDifference_ahead_behind_witness:
  "b_project (hd (branches demoFork)) = b_project (last (branches demoFork))
   \<and> b_name (hd (branches demoFork)) = ''main''
   \<and> b_name (last (branches demoFork)) = ''feature''
   \<and> commitsAhead (b_stats (fst (calculateDifference demoFork (hd (branches demoFork)) ''feature''))) = 1
   \<and> commitsBehind (b_stats (fst (calculateDifference demoFork (last (branches demoFork)) ''main''))) = 1"
proof -
  have h: "b_project (hd (branches demoFork)) = b_project (last (branches demoFork))"
    and n: "b_name (hd (branches demoFork)) = ''main''" "b_name (last (branches demoFork)) = ''feature''"
    by (simp_all add: demoFork_eq demoProject_eq)
  have a: "commitsAhead (b_stats (fst (calculateDifference demoFork (hd (branches demoFork)) ''feature''))) = 1"
    by (simp add: demoFork_eq demoProject_eq calculateDifference_def branchCommits_def sort_by_def Let_def)
  from calculateDifference_ahead_behind[of demoFork "hd (branches demoFork)" "last (branches demoFork)"]
  show ?thesis using h n a by simp
qed

subsection \<open>The scenario of a fork and a write\<close>

lemma scenarioProject_eq:
  assumes "trim title \<noteq> []" "length (trim title) \<le> 100"
    and "trim description \<noteq> []" "length (trim description) \<le> 500" "digest \<noteq> []"
  shows "scenarioProject userId title description digest = \<lparr>projects =
    [\<lparr>p_id = 0, p_title = trim title, p_description = trim description,
        p_readme = helloWorld, p_tags = [], p_owner = userId,
        p_collaborators = [], p_isPublic = True\<rparr>],
    branches =
      [\<lparr>b_id = 1, b_project = 0, b_name = ''main'',
          b_description = Some ''Main branch'', b_isDefault = True,
          b_isProtected = True, b_creator = userId, b_lastCommit = Some 3,
          b_parentBranch = None,
          b_stats = \<lparr>totalCommits = 1, commitsAhead = 0, commitsBehind = 0, lastActivity = 0\<rparr>\<rparr>],
    files =
      [\<lparr>f_id = 2, f_project = 0, f_path = ''/'', f_name = ''README.md'',
          f_content = helloWorld, f_type = TFile,
          f_extension = Some ''md'', f_size = 11, f_branch = ''main'',
          f_lastCommit = Some 3, f_isDeleted = False, f_parentDirectory = None\<rparr>],
    commits =
      [\<lparr>c_id = 3, c_project = 0, c_hash = take 7 digest,
          c_message = ''Initial commit'', c_author = userId, c_branch = ''main'',
          c_parentCommits = [],
          c_changes =
            [\<lparr>ch_file = 2, ch_action = added, ch_filePath = ''/README.md'',
                ch_oldPath = None, linesAdded = 2, linesDeleted = 0\<rparr>],
          c_stats = \<lparr>filesChanged = 1, totalLinesAdded = 2, totalLinesDeleted = 0\<rparr>,
          c_createdAt = 0\<rparr>],
    nextId = 4, clock = 1\<rparr>"
proof -
  have t: "trim ''/'' = ''/''" "trim ''README.md'' = ''README.md''" "trim ''main'' = ''main''"
    "trim ''Main branch'' = ''Main branch''" "trim ''Initial commit'' = ''Initial commit''"
    "trim ''md'' = ''md''"
    by (simp_all add: trim_def isSpace_def)
  have l: "lineCount helloWorld = 2" "js_split CHR ''.'' ''README.md'' = [''README'', ''md'']"
    "length helloWorld = 11" "helloWorld \<noteq> []"
    by (simp_all add: lineCount_def helloWorld_def)
  show ?thesis using assms
    by (simp add: scenarioProject_def createProject_def trim_idem t l Let_def validProject_def
          empty_store_def createMain_def newBranch_def validBranch_def insertBranch_def
          branch_pre_save_def newFile_def insertFile_def validFile_def file_pre_save_def
          generateHash_def newCommit_def insertCommit_def validCommit_def commit_pre_save_def
          calculateStats_def updateFile_def updateStats_def updateBranch_def branchCommits_def
          sort_by_def toLower_def)
qed

lemma scenarioWrite_eq:
  assumes "trim title \<noteq> []" "length (trim title) \<le> 100"
    and "trim description \<noteq> []" "length (trim description) \<le> 500" "digest \<noteq> []"
    and "validMessage message"
  shows "scenarioWrite userId title description digest message digest2 =
   (scenarioProject userId title description digest)\<lparr>
    branches := branches (scenarioProject userId title description digest) @
       [\<lparr>b_id = 4, b_project = 0, b_name = ''feature'', b_description = None,
          b_isDefault = False, b_isProtected = False, b_creator = userId,
          b_lastCommit = None, b_parentBranch = Some 1,
          b_stats = \<lparr>totalCommits = 0, commitsAhead = 0, commitsBehind = 0, lastActivity = 1\<rparr>\<rparr>],
    files := files (scenarioProject userId title description digest) @
       [\<lparr>f_id = 5, f_project = 0, f_path = ''/'', f_name = ''README.md'',
          f_content = helloWorldMore, f_type = TFile,
          f_extension = Some ''md'', f_size = 16, f_branch = ''feature'',
          f_lastCommit = None, f_isDeleted = False, f_parentDirectory = None\<rparr>],
    nextId := 7\<rparr>"
proof -
  have t: "trim ''/'' = ''/''" "trim ''README.md'' = ''README.md''" "trim ''main'' = ''main''"
    "trim ''feature'' = ''feature''" "trim ''md'' = ''md''"
    by (simp_all add: trim_def isSpace_def)
  have l: "js_split CHR ''.'' ''README.md'' = [''README'', ''md'']"
    "length helloWorld = 11" "helloWorld \<noteq> helloWorldMore" "length helloWorldMore = 16"
    "helloWorldMore \<noteq> []" "parsePath ''README.md'' = (''/'', ''README.md'')"
    by (simp_all add: helloWorld_def helloWorldMore_def parsePath_def Let_def)
  have fork: "scenarioFork userId title description digest =
   (scenarioProject userId title description digest)\<lparr>
    branches := branches (scenarioProject userId title description digest) @
       [\<lparr>b_id = 4, b_project = 0, b_name = ''feature'', b_description = None,
          b_isDefault = False, b_isProtected = False, b_creator = userId,
          b_lastCommit = None, b_parentBranch = Some 1,
          b_stats = \<lparr>totalCommits = 0, commitsAhead = 0, commitsBehind = 0, lastActivity = 1\<rparr>\<rparr>],
    files := files (scenarioProject userId title description digest) @
       [\<lparr>f_id = 5, f_project = 0, f_path = ''/'', f_name = ''README.md'',
          f_content = helloWorld, f_type = TFile,
          f_extension = Some ''md'', f_size = 11, f_branch = ''feature'',
          f_lastCommit = None, f_isDeleted = False, f_parentDirectory = None\<rparr>],
    nextId := 6\<rparr>"
    by (simp add: scenarioFork_def scenarioProject_eq[OF assms(1-5)] createBranch_def t l Let_def
          validOptional_def bodyBranch_def findProject_def hasPermission_def findBranch_def
          newBranch_def validBranch_def insertBranch_def branch_pre_save_def
          newFile_def insertFile_def validFile_def file_pre_save_def
          updateStats_def updateBranch_def branchCommits_def sort_by_def toLower_def)
  show ?thesis using assms(6)
    by (simp add: scenarioWrite_def fork put_eq scenarioProject_eq[OF assms(1-5)] t l
          validOptional_def bodyBranch_def findProject_def hasPermission_def putFile_def
          findLiveFile_def updateFile_def Let_def)
qed

text \<open>
  In the example, \<^verbatim>\<open>feature\<close> is reported 0 ahead and 1 behind \<^verbatim>\<open>main\<close>, and \<^verbatim>\<open>main\<close> 1
  ahead and 0 behind \<^verbatim>\<open>feature\<close>: not 1 and 0, then 0 and 1.
\<close>

theorem feature_is_behind_main:
  "divergence demoWrite 0 ''feature'' ''main'' = Some (0, 1)
   \<and> divergence demoWrite 0 ''main'' ''feature'' = Some (1, 0)"
  by (simp add: demoWrite_eq demoFork_eq demoProject_eq divergence_def findBranch_def
        calculateDifference_def branchCommits_def sort_by_def Let_def trim_def isSpace_def)

text \<open>
  C4, as amended. In the scenario (a project whose \<^verbatim>\<open>main\<close> holds \<^verbatim>\<open>/README.md\<close> =
  \<^verbatim>\<open>"hello\nworld"\<close>, \<^verbatim>\<open>feature\<close> forked from \<^verbatim>\<open>main\<close>, \<^verbatim>\<open>"hello\nworld\nmore"\<close> written
  to \<^verbatim>\<open>/README.md\<close> on \<^verbatim>\<open>feature\<close>), the divergence of \<^verbatim>\<open>feature\<close> from \<^verbatim>\<open>main\<close> reports
  \<^verbatim>\<open>behind\<close> = 1 and the divergence of \<^verbatim>\<open>main\<close> from \<^verbatim>\<open>feature\<close> reports \<^verbatim>\<open>ahead\<close> = 1: a
  fork copies files and no commits, so the initial commit of \<^verbatim>\<open>main\<close> is not in the history
  of \<^verbatim>\<open>feature\<close>. \<^verbatim>\<open>getContent\<close> on \<^verbatim>\<open>main\<close> still answers \<^verbatim>\<open>"hello\nworld"\<close>, and on
  \<^verbatim>\<open>feature\<close> it answers the new content.
\<close>

theorem fork_scenario_divergence:
  assumes "trim title \<noteq> []" "length (trim title) \<le> 100"
    and "trim description \<noteq> []" "length (trim description) \<le> 500" "digest \<noteq> []"
    and "validMessage message"
  shows "map_option snd (divergence (scenarioWrite userId title description digest message digest2)
                           0 ''feature'' ''main'') = Some 1
     \<and> map_option fst (divergence (scenarioWrite userId title description digest message digest2)
                           0 ''main'' ''feature'') = Some 1
     \<and> contentOf (getContent (scenarioWrite userId title description digest message digest2)
                     None 0 ''README.md'' (Some ''main'')) = Some helloWorld
     \<and> contentOf (getContent (scenarioWrite userId title description digest message digest2)
                     None 0 ''README.md'' (Some ''feature'')) = Some helloWorldMore"
proof -
  have t: "trim ''/'' = ''/''" "trim ''README.md'' = ''README.md''" "trim ''main'' = ''main''"
    "trim ''feature'' = ''feature''"
    by (simp_all add: trim_def isSpace_def)
  have p: "parsePath ''README.md'' = (''/'', ''README.md'')"
    by (simp add: parsePath_def Let_def)
  show ?thesis
    by (simp add: scenarioWrite_eq[OF assms] scenarioProject_eq[OF assms(1-5)] divergence_def
          findBranch_def calculateDifference_def branchCommits_def sort_by_def Let_def t p
          getContent_def contentOf_def findProject_def accessDenied_def)
qed

theorem fork_scenario_divergence_witness:
  "trim ''P'' \<noteq> [] \<and> trim ''demo'' \<noteq> [] \<and> demoDigest \<noteq> [] \<and> validMessage ''more''
   \<and> scenarioWrite 7 ''P'' ''demo'' demoDigest ''more'' demoDigest2 = demoWrite
   \<and> map_option snd (divergence demoWrite 0 ''feature'' ''main'') = Some 1
   \<and> map_option fst (divergence demoWrite 0 ''main'' ''feature'') = Some 1
   \<and> contentOf (getContent demoWrite None 0 ''README.md'' (Some ''main'')) = Some helloWorld"
proof -
  have h: "trim ''P'' \<noteq> []" "length (trim ''P'') \<le> 100" "trim ''demo'' \<noteq> []"
    "length (trim ''demo'') \<le> 500" "demoDigest \<noteq> []" "validMessage ''more''"
    by (simp_all add: trim_def isSpace_def demoDigest_def validMessage_def)
  have e: "scenarioWrite 7 ''P'' ''demo'' demoDigest ''more'' demoDigest2 = demoWrite"
    by (simp add: scenarioWrite_def scenarioFork_def scenarioProject_def demoWrite_def
          demoFork_def demoProject_def)
  from fork_scenario_divergence[OF h, of 7 demoDigest2] h e
  show ?thesis by simp
qed

subsection \<open>Write, write, delete\<close>

text \<open>
  C5. On \<^verbatim>\<open>main\<close> of the example project: write \<^verbatim>\<open>"A"\<close> to \<^verbatim>\<open>notes.txt\<close>, write
  \<^verbatim>\<open>"B"\<close>, delete. Each request is answered with 500. The file is stored and read back
  after the first write, and gone from the tree and from \<^verbatim>\<open>getContent\<close> after the delete;
  but the history of \<^verbatim>\<open>main\<close> holds the initial commit of the project and nothing else.
\<close>

theorem writes_and_delete_record_no_commit:
  "fst (put demoProject 0 7 ''notes.txt'' ''A'' ''add notes'' None demoDigest2) = Inl ServerError
   \<and> contentOf (getContent demoA None 0 ''notes.txt'' None) = Some ''A''
   \<and> fst (put demoA 0 7 ''notes.txt'' ''B'' ''change notes'' None demoDigest2) = Inl ServerError
   \<and> fst (remove demoB 0 7 ''notes.txt'' ''drop notes'' None demoDigest2) = Inl ServerError
   \<and> map_sum id (map f_name) (getTree demoDeleted None 0 None None) = Inr [''README.md'']
   \<and> getContent demoDeleted None 0 ''notes.txt'' None = Inl FileNotFound
   \<and> map_sum id (\<lambda>(page, total). (map c_message page, total))
        (history demoDeleted None 0 None 1 20 None None None) = Inr ([''Initial commit''], 1)
   \<and> commits demoDeleted = commits demoProject"
proof -
  have a: "demoA = snd (Inl ServerError :: error + File \<times> Commit, demoProject\<lparr>files := files demoProject @
       [\<lparr>f_id = 4, f_project = 0, f_path = ''/'', f_name = ''notes.txt'',
          f_content = ''A'', f_type = TFile, f_extension = Some ''txt'', f_size = 1,
          f_branch = ''main'', f_lastCommit = None, f_isDeleted = False,
          f_parentDirectory = None\<rparr>], nextId := 6\<rparr>)"
    by (simp add: demoA_def demoA_eq)
  have d: "demoDeleted = snd (Inl ServerError :: error + Commit, demoProject\<lparr>files := files demoProject @
       [\<lparr>f_id = 4, f_project = 0, f_path = ''/'', f_name = ''notes.txt'',
          f_content = ''B'', f_type = TFile, f_extension = Some ''txt'', f_size = 1,
          f_branch = ''main'', f_lastCommit = None, f_isDeleted = True,
          f_parentDirectory = None\<rparr>], nextId := 8\<rparr>)"
    by (simp add: demoDeleted_def demoDeleted_eq)
  have 1: "contentOf (getContent demoA None 0 ''notes.txt'' None) = Some ''A''"
    unfolding a by (simp add: demoProject_eq contentOf_def demo_defs model_defs)
  have 2: "map_sum id (map f_name) (getTree demoDeleted None 0 None None) = Inr [''README.md'']"
    "getContent demoDeleted None 0 ''notes.txt'' None = Inl FileNotFound"
    "map_sum id (\<lambda>(page, total). (map c_message page, total))
        (history demoDeleted None 0 None 1 20 None None None) = Inr ([''Initial commit''], 1)"
    "commits demoDeleted = commits demoProject"
    unfolding d by (simp_all add: demoProject_eq demo_defs model_defs)
  show ?thesis using 1 2 by (simp add: demoA_eq demoB_eq demoDeleted_eq)
qed

text \<open>
  The three requests are well-formed and come from the owner of the project: the answer
  500 is not a refusal of the request.
\<close>

theorem writes_and_delete_record_no_commit_witness:
  "validMessage ''add notes'' \<and> validMessage ''change notes'' \<and> validMessage ''drop notes''
   \<and> validOptional 100 None
   \<and> hasPermission (hd (projects demoProject)) 7 editor
   \<and> fst (put demoProject 0 7 ''notes.txt'' ''A'' ''add notes'' None demoDigest2) = Inl ServerError
   \<and> fst (put demoA 0 7 ''notes.txt'' ''B'' ''change notes'' None demoDigest2) = Inl ServerError
   \<and> fst (remove demoB 0 7 ''notes.txt'' ''drop notes'' None demoDigest2) = Inl ServerError
   \<and> commits demoDeleted = commits demoProject"
proof -
  have "validMessage ''add notes''" "validMessage ''change notes''" "validMessage ''drop notes''"
    "validOptional 100 None" "hasPermission (hd (projects demoProject)) 7 editor"
    by (simp_all add: validMessage_def validOptional_def trim_def isSpace_def demoProject_eq
          hasPermission_def)
  then show ?thesis using writes_and_delete_record_no_commit by simp
qed

subsection \<open>Change statistics\<close>

lemma putFile_result:
  assumes "putFile s projectId fileName dirPath content branch = Some (fl, isNewFile, oldContent, s1)"
  shows "f_content fl = content"
    and "case findLiveFile s projectId fileName dirPath branch of
           None \<Rightarrow> isNewFile \<and> oldContent = []
         | Some old \<Rightarrow> \<not> isNewFile \<and> oldContent = f_content old \<and> f_id fl = f_id old"
  using assms
  by (auto simp: putFile_def newFile_def Let_def split: option.splits if_splits dest!: insertFile_frame)

text \<open>
  The README of the example project has two lines. A \<^verbatim>\<open>PUT\<close> of three lines to its path
  builds a commit whose change counts no added line.
\<close>

theorem modified_file_adds_no_lines:
  "map_sum id (map linesAdded \<circ> c_changes \<circ> snd)
      (fst (putBuilds demoProject 0 7 ''README.md'' helloWorldMore ''more'' None)) = Inr [0]
   \<and> lineCount helloWorldMore = 3
   \<and> contentOf (getContent demoProject None 0 ''README.md'' None) = Some helloWorld"
  by (simp add: demoProject_eq contentOf_def demo_defs model_defs)

text \<open>
  C6, as amended. The statistics of a change are line counts of whole contents, a line count
  being the number of line feeds plus one. The commit that \<^verbatim>\<open>PUT\<close> builds holds one
  change, of the file that it has saved with the new content: when the path held no live
  file, the change is an addition with \<^verbatim>\<open>linesAdded\<close> = the line count of the new
  content and \<^verbatim>\<open>linesDeleted\<close> = 0; when it held one, the change is a modification with
  \<^verbatim>\<open>linesAdded\<close> = 0 and \<^verbatim>\<open>linesDeleted\<close> = the line count of the content that was
  stored. The commit that \<^verbatim>\<open>DELETE\<close> builds holds one change, a deletion of the live
  file of the path, with \<^verbatim>\<open>linesAdded\<close> = 0 and \<^verbatim>\<open>linesDeleted\<close> = the line count of
  its content. The pre-save hook of a commit sets \<^verbatim>\<open>filesChanged\<close> to the number of
  changes and the two totals to the sums of \<^verbatim>\<open>linesAdded\<close> and of \<^verbatim>\<open>linesDeleted\<close> over
  the changes, and every commit of a store that the requests reach has these statistics.
\<close>

theorem change_statistics:
  "lineCount content = length (filter (\<lambda>c. c = CHR 0x0A) content) + 1
   \<and> (fst (putBuilds s projectId userId filePath content message branch) = Inr (saved, commit)
        \<longrightarrow>
        f_content saved = content
        \<and> map ch_file (c_changes commit) = [f_id saved]
        \<and> (findLiveFile s projectId (snd (parsePath filePath)) (fst (parsePath filePath))
              (bodyBranch branch) = None \<longrightarrow>
             map ch_action (c_changes commit) = [added]
             \<and> map linesAdded (c_changes commit) = [lineCount content]
             \<and> map linesDeleted (c_changes commit) = [0])
        \<and> (\<forall>old. findLiveFile s projectId (snd (parsePath filePath)) (fst (parsePath filePath))
              (bodyBranch branch) = Some old \<longrightarrow>
             f_id saved = f_id old
             \<and> map ch_action (c_changes commit) = [modified]
             \<and> map linesAdded (c_changes commit) = [0]
             \<and> map linesDeleted (c_changes commit) = [lineCount (f_content old)]))
   \<and> (fst (removeBuilds s projectId userId filePath message branch) = Inr removal
        \<longrightarrow>
        (\<exists>old. findLiveFile s projectId (snd (parsePath filePath)) (fst (parsePath filePath))
              (bodyBranch branch) = Some old
             \<and> map ch_file (c_changes removal) = [f_id old]
             \<and> map ch_action (c_changes removal) = [deleted]
             \<and> map linesAdded (c_changes removal) = [0]
             \<and> map linesDeleted (c_changes removal) = [lineCount (f_content old)]))
   \<and> c_stats (commit_pre_save digest this) =
        \<lparr>filesChanged = length (c_changes this),
         totalLinesAdded = sum_list (map linesAdded (c_changes this)),
         totalLinesDeleted = sum_list (map linesDeleted (c_changes this))\<rparr>
   \<and> (\<forall>stored \<in> set (commits (serveAll empty_store requests)).
         c_stats stored =
           \<lparr>filesChanged = length (c_changes stored),
            totalLinesAdded = sum_list (map linesAdded (c_changes stored)),
            totalLinesDeleted = sum_list (map linesDeleted (c_changes stored))\<rparr>)"
proof -
  let ?dir = "fst (parsePath filePath)" and ?name = "snd (parsePath filePath)"
  let ?found = "findLiveFile s projectId ?name ?dir (bodyBranch branch)"
  have 1: "lineCount content = length (filter (\<lambda>c. c = CHR 0x0A) content) + 1"
    by (simp add: lineCount_def js_split_length)
  have 2: "f_content saved = content
        \<and> map ch_file (c_changes commit) = [f_id saved]
        \<and> (?found = None \<longrightarrow>
             map ch_action (c_changes commit) = [added]
             \<and> map linesAdded (c_changes commit) = [lineCount content]
             \<and> map linesDeleted (c_changes commit) = [0])
        \<and> (\<forall>old. ?found = Some old \<longrightarrow>
             f_id saved = f_id old
             \<and> map ch_action (c_changes commit) = [modified]
             \<and> map linesAdded (c_changes commit) = [0]
             \<and> map linesDeleted (c_changes commit) = [lineCount (f_content old)])"
    if b: "fst (putBuilds s projectId userId filePath content message branch) = Inr (saved, commit)"
  proof -
    from b obtain isNewFile oldContent s1 where
      pf: "putFile s projectId ?name ?dir content (bodyBranch branch)
             = Some (saved, isNewFile, oldContent, s1)"
      and c: "commit = putCommit (nextId s1) projectId (trim message) userId (bodyBranch branch)
                saved isNewFile content oldContent"
      by (auto simp: putBuilds_def Let_def split: if_splits option.splits prod.splits)
    from putFile_result[OF pf] show ?thesis
      by (cases ?found) (auto simp: c putCommit_def newCommit_def)
  qed
  have 3: "\<exists>old. ?found = Some old
             \<and> map ch_file (c_changes removal) = [f_id old]
             \<and> map ch_action (c_changes removal) = [deleted]
             \<and> map linesAdded (c_changes removal) = [0]
             \<and> map linesDeleted (c_changes removal) = [lineCount (f_content old)]"
    if b: "fst (removeBuilds s projectId userId filePath message branch) = Inr removal"
    using b
    by (auto simp: removeBuilds_def Let_def removeCommit_def newCommit_def
          split: if_splits option.splits prod.splits)
  have 4: "c_stats (commit_pre_save digest this) =
        \<lparr>filesChanged = length (c_changes this),
         totalLinesAdded = sum_list (map linesAdded (c_changes this)),
         totalLinesDeleted = sum_list (map linesDeleted (c_changes this))\<rparr>"
    by (simp add: commit_pre_save_fields aggregates_def)
  have "wfCommits (serveAll empty_store requests)"
    by (rule wfCommits_serveAll[OF wfCommits_empty])
  then have 5: "\<forall>stored \<in> set (commits (serveAll empty_store requests)).
         c_stats stored =
           \<lparr>filesChanged = length (c_changes stored),
            totalLinesAdded = sum_list (map linesAdded (c_changes stored)),
            totalLinesDeleted = sum_list (map linesDeleted (c_changes stored))\<rparr>"
    by (simp add: wfCommits_def aggregates_def)
  show ?thesis using 1 2 3 4 5 by blast
qed

text \<open>
  On the example project: a \<^verbatim>\<open>PUT\<close> and a \<^verbatim>\<open>DELETE\<close> of the owner at the path of the
  README, whose stored content has two lines.
\<close>

theorem change_statistics_witness:
  "serveAll empty_store
      [CreateProject 7 ''P'' ''demo'' (Some helloWorld) None None demoDigest] = demoProject
   \<and> map c_stats (commits demoProject)
       = [\<lparr>filesChanged = 1, totalLinesAdded = 2, totalLinesDeleted = 0\<rparr>]
   \<and> map_option f_content (findLiveFile demoProject 0 (snd (parsePath ''README.md''))
         (fst (parsePath ''README.md'')) (bodyBranch None)) = Some helloWorld
   \<and> map_sum id (map ch_action \<circ> c_changes \<circ> snd)
        (fst (putBuilds demoProject 0 7 ''README.md'' helloWorldMore ''more'' None))
       = Inr [modified]
   \<and> map_sum id (map linesDeleted \<circ> c_changes \<circ> snd)
        (fst (putBuilds demoProject 0 7 ''README.md'' helloWorldMore ''more'' None))
       = Inr [lineCount helloWorld]
   \<and> map_sum id (map ch_action \<circ> c_changes)
        (fst (removeBuilds demoProject 0 7 ''README.md'' ''more'' None)) = Inr [deleted]
   \<and> map_sum id (map linesDeleted \<circ> c_changes)
        (fst (removeBuilds demoProject 0 7 ''README.md'' ''more'' None))
       = Inr [lineCount helloWorld]
   \<and> lineCount helloWorld = 2"
proof -
  have e: "serveAll empty_store
         [CreateProject 7 ''P'' ''demo'' (Some helloWorld) None None demoDigest] = demoProject"
    by (simp add: serveAll_def demoProject_def)
  have c: "map c_stats (commits demoProject)
       = [\<lparr>filesChanged = 1, totalLinesAdded = 2, totalLinesDeleted = 0\<rparr>]"
    by (simp add: demoProject_eq)
  obtain old where f: "findLiveFile demoProject 0 (snd (parsePath ''README.md''))
         (fst (parsePath ''README.md'')) (bodyBranch None) = Some old"
    and o: "f_content old = helloWorld"
    by (simp add: demoProject_eq demo_defs model_defs)
  obtain saved commit where p:
    "fst (putBuilds demoProject 0 7 ''README.md'' helloWorldMore ''more'' None)
       = Inr (saved, commit)"
    by (simp add: demoProject_eq demo_defs model_defs)
  obtain removal where r:
    "fst (removeBuilds demoProject 0 7 ''README.md'' ''more'' None) = Inr removal"
    by (simp add: demoProject_eq demo_defs model_defs)
  have l: "lineCount helloWorld = 2" by (simp add: lineCount_def demo_defs)
  from change_statistics[where content = helloWorldMore and s = demoProject and projectId = 0
      and userId = 7 and filePath = "''README.md''" and message = "''more''" and branch = None
      and saved = saved and commit = commit and removal = removal
      and requests = "[CreateProject 7 ''P'' ''demo'' (Some helloWorld) None None demoDigest]"]
    p r f
  have "map ch_action (c_changes commit) = [modified]"
    "map linesDeleted (c_changes commit) = [lineCount (f_content old)]"
    "map ch_action (c_changes removal) = [deleted]"
    "map linesDeleted (c_changes removal) = [lineCount (f_content old)]"
    by auto
  then show ?thesis using e c f p r l by (simp add: o)
qed

subsection \<open>The file tree\<close>

text \<open>
  The sort \<^verbatim>\<open>{ type: -1, name: 1 }\<close> compares the strings of the types in descending
  order, and \<^verbatim>\<open>'file'\<close> is above \<^verbatim>\<open>'directory'\<close>: a file would come before a directory,
  against the comment of the route (``directories first, then files alphabetically''). It
  does not show, since no request stores a directory.
\<close>

lemma typeDescNameAsc_file_first:
  "f_type a = TFile \<Longrightarrow> f_type b = TDirectory \<Longrightarrow> typeDescNameAsc a b \<and> \<not> typeDescNameAsc b a"
  by (simp add: typeDescNameAsc_def less_char_def less_eq_char_def)




subsection \<open>Looking a commit up by a prefix of its hash\<close>






subsection \<open>Commit hashes\<close>

text \<open>
  The hash that is stored is the first seven characters of the digest, not the digest: for
  the digest \<^verbatim>\<open>da39a3ee5e6b4b0d3255bfef95601890afd80709\<close> the commit holds \<^verbatim>\<open>da39a3e\<close>.
\<close>

theorem stored_hash_is_seven_characters:
  "c_hash (generateHash demoDigest demoCommit1) = ''da39a3e''
   \<and> c_hash (generateHash demoDigest demoCommit1) \<noteq> demoDigest
   \<and> length demoDigest = 40
   \<and> map c_hash (commits demoProject) = [''da39a3e'']"
  by (simp add: generateHash_def demoDigest_def demoProject_eq)

text \<open>
  C9, as amended. \<^verbatim>\<open>generateHash\<close> stores as the hash of the commit the first seven
  characters of the hexadecimal digest: an identifier of seven hexadecimal characters (for a
  digest of at least seven hexadecimal characters). The short display form is the stored
  hash itself; the full digest is not kept. The unique index on \<^verbatim>\<open>hash\<close> keeps the hashes
  of all stored commits, of whatever project, apart.
\<close>

theorem generateHash_truncates:
  "c_hash (generateHash digest this) = take 7 digest
   \<and> shortHash (generateHash digest this) = c_hash (generateHash digest this)
   \<and> (7 \<le> length digest \<longrightarrow> length (c_hash (generateHash digest this)) = 7)
   \<and> (7 < length digest \<longrightarrow> c_hash (generateHash digest this) \<noteq> digest)
   \<and> (list_all isHexDigit digest \<longrightarrow> list_all isHexDigit (c_hash (generateHash digest this)))
   \<and> distinct (map c_hash (commits (serveAll empty_store requests)))"
proof -
  have "wfHashes (serveAll empty_store requests)"
    using wellFormed_serveAll[OF wellFormed_empty, of requests] by (simp add: wellFormed_def)
  moreover have "take 7 digest \<noteq> digest" if "7 < length digest"
    using that by (metis length_take min.absorb4 nat_neq_iff)
  moreover have "list_all isHexDigit (take 7 digest)" if "list_all isHexDigit digest"
    using that by (auto simp: list_all_iff dest: in_set_takeD)
  ultimately show ?thesis
    by (simp add: generateHash_def shortHash_def wfHashes_def)
qed

theorem generateHash_truncates_witness:
  "7 < length demoDigest \<and> list_all isHexDigit demoDigest
   \<and> length (c_hash (generateHash demoDigest demoCommit1)) = 7
   \<and> c_hash (generateHash demoDigest demoCommit1) \<noteq> demoDigest
   \<and> list_all isHexDigit (c_hash (generateHash demoDigest demoCommit1))"
proof -
  have h: "7 < length demoDigest" "list_all isHexDigit demoDigest" "7 \<le> length demoDigest"
    by (simp_all add: demoDigest_def isHexDigit_def less_eq_char_def)
  from generateHash_truncates[of demoDigest demoCommit1 "[]"] h
  show ?thesis by blast
qed

subsection \<open>Permissions\<close>

lemma hasPermission_owner: "hasPermission p (p_owner p) r"
  by (simp add: hasPermission_def)

lemma hasPermission_outsider:
  "u \<noteq> p_owner p \<Longrightarrow> u \<notin> col_user ` set (p_collaborators p) \<Longrightarrow> \<not> hasPermission p u r"
  by (auto simp: hasPermission_def find_None_iff split: option.splits dest!: find_Some_iff[THEN iffD1])

lemma trim_nonempty: "\<not> isSpace c \<Longrightarrow> trim (c # cs) \<noteq> []"
  by (simp add: trim_def dropWhile_eq_Nil_conv dropWhile_append3)

lemma parsePath_dir: "trim (fst (parsePath filePath)) \<noteq> []"
proof -
  have "\<exists>cs. fst (parsePath filePath) = CHR ''/'' # cs"
    by (simp add: parsePath_def Let_def)
  moreover have "\<not> isSpace CHR ''/''" by (simp add: isSpace_def)
  ultimately show ?thesis using trim_nonempty by metis
qed

lemma bodyBranch_length: "validOptional 100 branch \<Longrightarrow> length (bodyBranch branch) \<le> 100"
  by (cases branch) (simp_all add: validOptional_def bodyBranch_def)

lemma putFile_succeeds:
  assumes "length content \<le> 1000000" "trim fileName \<noteq> []" "length (trim fileName) \<le> 255"
    and "trim dirPath \<noteq> []" "length (trim dirPath) \<le> 500" "length branch \<le> 100"
  shows "\<exists>saved isNewFile oldContent s1.
           putFile s projectId fileName dirPath content branch
             = Some (saved, isNewFile, oldContent, s1)
           \<and> saved \<in> set (files s1) \<and> f_content saved = content
           \<and> f_project saved = projectId \<and> f_branch saved = branch \<and> \<not> f_isDeleted saved"
proof (cases "findLiveFile s projectId fileName dirPath branch")
  case None
  let ?nf = "newFile (nextId s) projectId dirPath fileName content TFile None 0 branch None"
  have "validFile ?nf" using assms by (simp add: validFile_def newFile_def)
  then have "insertFile (s\<lparr>nextId := nextId s + 1\<rparr>) ?nf
      = Some (file_pre_save ?nf, s\<lparr>nextId := nextId s + 1, files := files s @ [file_pre_save ?nf]\<rparr>)"
    by (simp add: insertFile_def Let_def)
  then show ?thesis using None by (auto simp: putFile_def Let_def newFile_def)
next
  case (Some old)
  from findLiveFile_Some[OF Some] show ?thesis using Some assms(1)
    by (auto simp: putFile_def Let_def updateFile_def image_iff intro!: bexI[of _ old])
qed

lemma updateBranch_keeps:
  assumes "b \<in> set (branches s)" "\<And>y. F (upd y) = F y"
  shows "\<exists>b' \<in> set (branches (updateBranch s i upd)). F b' = F b"
proof -
  have "(if b_id b = i then upd b else b) \<in> set (branches (updateBranch s i upd))"
    using assms(1) by (auto simp: updateBranch_def)
  moreover have "F (if b_id b = i then upd b else b) = F b" using assms(2) by simp
  ultimately show ?thesis by blast
qed

lemma updateStats_keeps:
  assumes "b \<in> set (branches s)"
  shows "\<exists>b' \<in> set (branches (snd (updateStats s x))).
        b_project b' = b_project b \<and> b_name b' = b_name b \<and> b_creator b' = b_creator b
        \<and> b_parentBranch b' = b_parentBranch b"
proof -
  let ?F = "\<lambda>b. (b_project b, b_name b, b_creator b, b_parentBranch b)"
  have "\<exists>b' \<in> set (branches (snd (updateStats s x))). ?F b' = ?F b"
    unfolding updateStats_def Let_def snd_conv
    by (rule updateBranch_keeps[OF assms]) (simp split: list.splits)
  then show ?thesis by auto
qed

lemma insertBranch_succeeds:
  assumes "validBranch b" "\<not> isDefaultGiven"
    and "\<not> (\<exists>x \<in> set (branches s). b_project x = b_project b \<and> b_name x = b_name b)"
  shows "insertBranch s isDefaultGiven b = (Some b, s\<lparr>branches := branches s @ [b]\<rparr>)"
  using assms by (simp add: insertBranch_def branch_pre_save_def Let_def)

text \<open>
  C10. The owner of a project has every role: \<^verbatim>\<open>hasPermission\<close> answers true for the owner
  and every required role, whatever the list of collaborators. A well-formed request of the
  owner gets past the permission check of each of the four routes:
  \<^item> writing a file whose content, name and directory are within the limits of the schema
    saves the file and builds the commit of the owner, and the store then holds the file,
    live, with the new content, on the branch of the request;
  \<^item> deleting a file answers \<^verbatim>\<open>File not found\<close> when the path holds no live file, and
    otherwise marks the file as deleted;
  \<^item> creating a branch answers \<^verbatim>\<open>Branch already exists\<close> or \<^verbatim>\<open>Source branch not found\<close>
    when this is so, and otherwise (for a description within the limit of the schema) stores
    the branch of the owner, forked from the source;
  \<^item> deleting a branch answers \<^verbatim>\<open>Branch not found\<close>, refuses the default branch and a
    protected branch, and deletes any other.

  A user who is neither the owner nor a collaborator has no role: each of the four routes
  answers a well-formed request of such a user with 403, a malformed one with 400, and
  leaves the store as it is. (The requests are those that reach the route: the body parser
  and the authentication come before it.)
\<close>

theorem owner_passes_every_gate:
  assumes "findProject s projectId = Some project"
  shows "(\<forall>requiredRole. hasPermission project (p_owner project) requiredRole)
    \<and> (content \<noteq> [] \<and> validMessage message \<and> validOptional 100 branch
        \<and> length content \<le> 1000000
        \<and> trim (snd (parsePath filePath)) \<noteq> [] \<and> length (trim (snd (parsePath filePath))) \<le> 255
        \<and> length (trim (fst (parsePath filePath))) \<le> 500 \<longrightarrow>
        (\<exists>saved commit.
           fst (putBuilds s projectId (p_owner project) filePath content message branch)
             = Inr (saved, commit)
           \<and> c_author commit = p_owner project
           \<and> (\<exists>stored \<in> set (files (snd (put s projectId (p_owner project) filePath content
                                            message branch digest))).
                 f_id stored = f_id saved \<and> f_project stored = projectId
                 \<and> f_branch stored = bodyBranch branch \<and> f_content stored = content
                 \<and> \<not> f_isDeleted stored)))
    \<and> (validMessage message \<and> validOptional 100 branch \<longrightarrow>
        (findLiveFile s projectId (snd (parsePath filePath)) (fst (parsePath filePath))
           (bodyBranch branch) = None \<longrightarrow>
           remove s projectId (p_owner project) filePath message branch digest
             = (Inl FileNotFound, s))
        \<and> (\<forall>old. findLiveFile s projectId (snd (parsePath filePath)) (fst (parsePath filePath))
                 (bodyBranch branch) = Some old \<longrightarrow>
             files (snd (remove s projectId (p_owner project) filePath message branch digest))
               = map (\<lambda>f. if f_id f = f_id old then f\<lparr>f_isDeleted := True\<rparr> else f) (files s)))
    \<and> (1 \<le> length (trim name) \<and> length (trim name) \<le> 100 \<and> validOptional 100 source \<longrightarrow>
        (findBranch s projectId (trim name) \<noteq> None \<longrightarrow>
           createBranch s projectId (p_owner project) name source description
             = (Inl BranchAlreadyExists, s))
        \<and> (findBranch s projectId (trim name) = None
            \<and> findBranch s projectId (bodyBranch source) = None \<longrightarrow>
           createBranch s projectId (p_owner project) name source description
             = (Inl SourceBranchNotFound, s))
        \<and> (\<forall>sourceBranch. findBranch s projectId (trim name) = None
            \<and> findBranch s projectId (bodyBranch source) = Some sourceBranch
            \<and> validOptional 200 description \<longrightarrow>
           (\<exists>created \<in> set (branches (snd (createBranch s projectId (p_owner project) name source
                                               description))).
              b_project created = projectId \<and> b_name created = trim name
              \<and> b_creator created = p_owner project
              \<and> b_parentBranch created = Some (b_id sourceBranch))))
    \<and> (1 \<le> length (trim branchName) \<and> length (trim branchName) \<le> 100 \<longrightarrow>
        (findBranch s projectId (trim branchName) = None \<longrightarrow>
           deleteBranch s projectId (p_owner project) branchName = (Inl BranchNotFound, s))
        \<and> (\<forall>found. findBranch s projectId (trim branchName) = Some found \<longrightarrow>
             deleteBranch s projectId (p_owner project) branchName =
               (if b_isDefault found then (Inl CannotDeleteDefault, s)
                else if b_isProtected found then (Inl CannotDeleteProtected, s)
                else (Inr (), s\<lparr>branches := filter (\<lambda>b. b_id b \<noteq> b_id found) (branches s)\<rparr>))))
    \<and> (\<forall>userId. userId \<noteq> p_owner project
          \<and> userId \<notin> col_user ` set (p_collaborators project) \<longrightarrow>
          (\<forall>requiredRole. \<not> hasPermission project userId requiredRole)
          \<and> put s projectId userId filePath content message branch digest
               = (Inl (if content \<noteq> [] \<and> validMessage message \<and> validOptional 100 branch
                       then AccessDenied else ValidationFailed), s)
          \<and> remove s projectId userId filePath message branch digest
               = (Inl (if validMessage message \<and> validOptional 100 branch
                       then AccessDenied else ValidationFailed), s)
          \<and> createBranch s projectId userId name source description
               = (Inl (if 1 \<le> length (trim name) \<and> length (trim name) \<le> 100
                          \<and> validOptional 100 source
                       then AccessDenied else ValidationFailed), s)
          \<and> deleteBranch s projectId userId branchName
               = (Inl (if 1 \<le> length (trim branchName) \<and> length (trim branchName) \<le> 100
                       then AccessDenied else ValidationFailed), s))"
proof -
  let ?owner = "p_owner project"
  let ?dir = "fst (parsePath filePath)" and ?name = "snd (parsePath filePath)"
  have own: "\<And>r. hasPermission project ?owner r"
    by (rule hasPermission_owner)
  have 1: "\<exists>saved commit.
           fst (putBuilds s projectId ?owner filePath content message branch) = Inr (saved, commit)
           \<and> c_author commit = ?owner
           \<and> (\<exists>stored \<in> set (files (snd (put s projectId ?owner filePath content
                                            message branch digest))).
                 f_id stored = f_id saved \<and> f_project stored = projectId
                 \<and> f_branch stored = bodyBranch branch \<and> f_content stored = content
                 \<and> \<not> f_isDeleted stored)"
    if v: "content \<noteq> []" "validMessage message" "validOptional 100 branch"
      and f: "length content \<le> 1000000" "trim ?name \<noteq> []" "length (trim ?name) \<le> 255"
        "length (trim ?dir) \<le> 500"
  proof -
    from putFile_succeeds[OF f(1-3) parsePath_dir f(4) bodyBranch_length[OF v(3)]]
    obtain saved isNewFile oldContent s1 where
      pf: "putFile s projectId ?name ?dir content (bodyBranch branch)
             = Some (saved, isNewFile, oldContent, s1)"
      and sv: "saved \<in> set (files s1)" "f_content saved = content" "f_project saved = projectId"
        "f_branch saved = bodyBranch branch" "\<not> f_isDeleted saved"
      by blast
    let ?commit = "putCommit (nextId s1) projectId (trim message) ?owner (bodyBranch branch)
                 saved isNewFile content oldContent"
    have b: "fst (putBuilds s projectId ?owner filePath content message branch)
        = Inr (saved, ?commit)"
      using assms v own pf by (auto simp: putBuilds_def Let_def split: prod.splits)
    have a: "c_author ?commit = ?owner"
      by (simp add: putCommit_def newCommit_def)
    have "files (snd (put s projectId ?owner filePath content message branch digest)) = files s1"
      using assms v own pf by (simp add: put_eq)
    then have st: "\<exists>stored \<in> set (files (snd (put s projectId ?owner filePath content
                                            message branch digest))).
                 f_id stored = f_id saved \<and> f_project stored = projectId
                 \<and> f_branch stored = bodyBranch branch \<and> f_content stored = content
                 \<and> \<not> f_isDeleted stored"
      using sv by (auto intro!: bexI[of _ saved])
    show ?thesis
      by (rule exI[of _ saved], rule exI[of _ ?commit]) (simp only: a b st simp_thms)
  qed
  have 2: "(findLiveFile s projectId ?name ?dir (bodyBranch branch) = None \<longrightarrow>
           remove s projectId ?owner filePath message branch digest = (Inl FileNotFound, s))
        \<and> (\<forall>old. findLiveFile s projectId ?name ?dir (bodyBranch branch) = Some old \<longrightarrow>
             files (snd (remove s projectId ?owner filePath message branch digest))
               = map (\<lambda>f. if f_id f = f_id old then f\<lparr>f_isDeleted := True\<rparr> else f) (files s))"
    if v: "validMessage message" "validOptional 100 branch"
    using assms v own by (simp add: remove_eq updateFile_def)
  have 3: "(findBranch s projectId (trim name) \<noteq> None \<longrightarrow>
           createBranch s projectId ?owner name source description
             = (Inl BranchAlreadyExists, s))
        \<and> (findBranch s projectId (trim name) = None
            \<and> findBranch s projectId (bodyBranch source) = None \<longrightarrow>
           createBranch s projectId ?owner name source description
             = (Inl SourceBranchNotFound, s))"
    if v: "1 \<le> length (trim name)" "length (trim name) \<le> 100" "validOptional 100 source"
    using assms v own by (auto simp: createBranch_def Let_def)
  have 4: "\<exists>created \<in> set (branches (snd (createBranch s projectId ?owner name source
                                               description))).
              b_project created = projectId \<and> b_name created = trim name
              \<and> b_creator created = ?owner
              \<and> b_parentBranch created = Some (b_id sourceBranch)"
    if v: "1 \<le> length (trim name)" "length (trim name) \<le> 100" "validOptional 100 source"
      and n: "findBranch s projectId (trim name) = None"
      and sb: "findBranch s projectId (bodyBranch source) = Some sourceBranch"
      and d: "validOptional 200 description"
    for sourceBranch
  proof -
    let ?s1 = "s\<lparr>nextId := nextId s + 1\<rparr>"
    define nb where "nb = newBranch ?s1 (nextId s) projectId (trim name) description False False
                            ?owner (Some (b_id sourceBranch))"
    have fields: "b_project nb = projectId" "b_name nb = trim name" "b_creator nb = ?owner"
      "b_parentBranch nb = Some (b_id sourceBranch)"
      by (simp_all add: nb_def newBranch_def trim_idem)
    have "validBranch nb" using v d
      by (cases description) (auto simp: validBranch_def nb_def newBranch_def trim_idem
            validOptional_def)
    moreover have "\<not> (\<exists>x \<in> set (branches ?s1). b_project x = b_project nb \<and> b_name x = b_name nb)"
      using n by (auto simp: findBranch_def find_None_iff fields trim_idem)
    ultimately have ib: "insertBranch ?s1 False nb = (Some nb, ?s1\<lparr>branches := branches ?s1 @ [nb]\<rparr>)"
      by (intro insertBranch_succeeds) simp_all
    let ?s2 = "?s1\<lparr>branches := branches ?s1 @ [nb]\<rparr>"
    let ?src = "filter (\<lambda>f. f_project f = projectId \<and> f_branch f = bodyBranch source
                          \<and> \<not> f_isDeleted f) (files ?s2)"
    obtain ok s3 where cf: "copyFiles ?s2 projectId (trim name) ?src = (ok, s3)"
      by (cases "copyFiles ?s2 projectId (trim name) ?src")
    have ne: "trim name \<noteq> []" using v(1) by auto
    have cb: "snd (createBranch s projectId ?owner name source description)
        = (if ok then snd (updateStats s3 nb) else s3)"
      using assms v(2,3) ne own n sb ib[unfolded nb_def] cf[unfolded nb_def]
      by (cases ok) (simp_all add: createBranch_def Let_def nb_def split: prod.splits)
    have "nb \<in> set (branches s3)" using copyFiles_frame_eq[OF cf] by simp
    then have "\<exists>created \<in> set (branches (if ok then snd (updateStats s3 nb) else s3)).
              b_project created = b_project nb \<and> b_name created = b_name nb
              \<and> b_creator created = b_creator nb \<and> b_parentBranch created = b_parentBranch nb"
      using updateStats_keeps[of nb s3 nb] by (cases ok) auto
    then show ?thesis unfolding cb by (simp add: fields)
  qed
  have 5: "(findBranch s projectId (trim branchName) = None \<longrightarrow>
           deleteBranch s projectId ?owner branchName = (Inl BranchNotFound, s))
        \<and> (\<forall>found. findBranch s projectId (trim branchName) = Some found \<longrightarrow>
             deleteBranch s projectId ?owner branchName =
               (if b_isDefault found then (Inl CannotDeleteDefault, s)
                else if b_isProtected found then (Inl CannotDeleteProtected, s)
                else (Inr (), s\<lparr>branches := filter (\<lambda>b. b_id b \<noteq> b_id found) (branches s)\<rparr>)))"
    if v: "1 \<le> length (trim branchName)" "length (trim branchName) \<le> 100"
    using assms v own by (auto simp: deleteBranch_def)
  have 6: "(\<forall>requiredRole. \<not> hasPermission project userId requiredRole)
          \<and> put s projectId userId filePath content message branch digest
               = (Inl (if content \<noteq> [] \<and> validMessage message \<and> validOptional 100 branch
                       then AccessDenied else ValidationFailed), s)
          \<and> remove s projectId userId filePath message branch digest
               = (Inl (if validMessage message \<and> validOptional 100 branch
                       then AccessDenied else ValidationFailed), s)
          \<and> createBranch s projectId userId name source description
               = (Inl (if 1 \<le> length (trim name) \<and> length (trim name) \<le> 100
                          \<and> validOptional 100 source
                       then AccessDenied else ValidationFailed), s)
          \<and> deleteBranch s projectId userId branchName
               = (Inl (if 1 \<le> length (trim branchName) \<and> length (trim branchName) \<le> 100
                       then AccessDenied else ValidationFailed), s)"
    if "userId \<noteq> p_owner project" "userId \<notin> col_user ` set (p_collaborators project)" for userId
  proof -
    note np = hasPermission_outsider[OF that]
    have cv: "(1 \<le> length (trim name) \<and> length (trim name) \<le> 100 \<and> validOptional 100 source)
        = (\<not> (length (trim name) < 1 \<or> length (trim name) > 100 \<or> \<not> validOptional 100 source))"
      and dv: "(1 \<le> length (trim branchName) \<and> length (trim branchName) \<le> 100)
        = (\<not> (length (trim branchName) < 1 \<or> length (trim branchName) > 100))"
      by (auto simp: Suc_le_eq)
    have "put s projectId userId filePath content message branch digest
               = (Inl (if content \<noteq> [] \<and> validMessage message \<and> validOptional 100 branch
                       then AccessDenied else ValidationFailed), s)"
      using assms np by (simp add: put_eq)
    moreover have "remove s projectId userId filePath message branch digest
               = (Inl (if validMessage message \<and> validOptional 100 branch
                       then AccessDenied else ValidationFailed), s)"
      using assms np by (simp add: remove_eq)
    moreover have "createBranch s projectId userId name source description
               = (Inl (if 1 \<le> length (trim name) \<and> length (trim name) \<le> 100
                          \<and> validOptional 100 source
                       then AccessDenied else ValidationFailed), s)"
      unfolding cv using assms np by (simp add: createBranch_def Let_def)
    moreover have "deleteBranch s projectId userId branchName
               = (Inl (if 1 \<le> length (trim branchName) \<and> length (trim branchName) \<le> 100
                       then AccessDenied else ValidationFailed), s)"
      unfolding dv using assms np by (simp add: deleteBranch_def)
    ultimately show ?thesis using np by blast
  qed
  show ?thesis
    apply (intro conjI)
    subgoal using own by blast
    subgoal using 1 by blast
    subgoal using 2 by blast
    subgoal using 3 4 by blast
    subgoal using 5 by blast
    subgoal using 6 by blast
    done
qed

text \<open>
  On the example project with its fork: user 7 is the owner, user 8 is neither the owner
  nor a collaborator.
\<close>

theorem owner_passes_every_gate_witness:
  "findProject demoFork 0 = Some (hd (projects demoFork))
   \<and> p_owner (hd (projects demoFork)) = 7 \<and> p_collaborators (hd (projects demoFork)) = []
   \<and> hasPermission (hd (projects demoFork)) 7 admin
   \<and> validMessage ''edit'' \<and> validOptional 100 None \<and> validOptional 100 (Some ''main'')
   \<and> validOptional 200 None \<and> parsePath ''README.md'' = (''/'', ''README.md'')
   \<and> trim ''dev'' = ''dev'' \<and> trim ''feature'' = ''feature''
   \<and> contentOf (getContent (snd (put demoFork 0 7 ''README.md'' ''x'' ''edit'' None demoDigest2))
         None 0 ''README.md'' None) = Some ''x''
   \<and> map f_isDeleted (files (snd (remove demoFork 0 7 ''README.md'' ''edit'' None demoDigest2)))
       = [True, False]
   \<and> map b_name (branches (snd (createBranch demoFork 0 7 ''dev'' (Some ''main'') None)))
       = [''main'', ''feature'', ''dev'']
   \<and> fst (deleteBranch demoFork 0 7 ''feature'') = Inr ()
   \<and> map b_name (branches (snd (deleteBranch demoFork 0 7 ''feature''))) = [''main'']
   \<and> \<not> hasPermission (hd (projects demoFork)) 8 viewer
   \<and> put demoFork 0 8 ''README.md'' ''x'' ''edit'' None demoDigest2 = (Inl AccessDenied, demoFork)
   \<and> remove demoFork 0 8 ''README.md'' ''edit'' None demoDigest2 = (Inl AccessDenied, demoFork)
   \<and> createBranch demoFork 0 8 ''dev'' (Some ''main'') None = (Inl AccessDenied, demoFork)
   \<and> deleteBranch demoFork 0 8 ''feature'' = (Inl AccessDenied, demoFork)"
proof -
  have h: "findProject demoFork 0 = Some (hd (projects demoFork))"
    by (simp add: demoFork_eq demoProject_eq findProject_def)
  have o: "p_owner (hd (projects demoFork)) = 7"
    and c: "p_collaborators (hd (projects demoFork)) = []"
    by (simp_all add: demoFork_eq demoProject_eq)
  have v: "validMessage ''edit''" "validOptional 100 None" "validOptional 100 (Some ''main'')"
    "validOptional 200 None" "parsePath ''README.md'' = (''/'', ''README.md'')"
    "trim ''dev'' = ''dev''" "trim ''feature'' = ''feature''" "''x'' \<noteq> []"
    by (simp_all add: validMessage_def validOptional_def parsePath_def trim_def isSpace_def)
  have fb: "findBranch demoFork 0 (trim ''feature'') = Some (branches demoFork ! 1)"
    "\<not> b_isDefault (branches demoFork ! 1)" "\<not> b_isProtected (branches demoFork ! 1)"
    "b_id (branches demoFork ! 1) = 4"
    by (simp_all add: demoFork_eq demoProject_eq findBranch_def trim_def isSpace_def)
  have lv: "1 \<le> length (trim ''feature'') \<and> length (trim ''feature'') \<le> 100"
    by (simp add: v)
  note T = owner_passes_every_gate[OF h, where content = "''x''" and message = "''edit''"
      and branch = None and filePath = "''README.md''" and digest = demoDigest2
      and name = "''dev''" and source = "Some ''main''" and description = None
      and branchName = "''feature''"]
  note del = T[THEN conjunct2, THEN conjunct2, THEN conjunct2, THEN conjunct2, THEN conjunct1]
  note out = T[THEN conjunct2, THEN conjunct2, THEN conjunct2, THEN conjunct2, THEN conjunct2,
      rule_format, of 8]
  have d: "fst (deleteBranch demoFork 0 7 ''feature'') = Inr ()"
    "map b_name (branches (snd (deleteBranch demoFork 0 7 ''feature''))) = [''main'']"
    using del[THEN mp, OF lv, THEN conjunct2, rule_format, OF fb(1)] fb(2,3,4)
    by (simp_all add: o demoFork_eq demoProject_eq)
  have u: "\<not> hasPermission (hd (projects demoFork)) 8 viewer"
    "put demoFork 0 8 ''README.md'' ''x'' ''edit'' None demoDigest2 = (Inl AccessDenied, demoFork)"
    "remove demoFork 0 8 ''README.md'' ''edit'' None demoDigest2 = (Inl AccessDenied, demoFork)"
    "createBranch demoFork 0 8 ''dev'' (Some ''main'') None = (Inl AccessDenied, demoFork)"
    "deleteBranch demoFork 0 8 ''feature'' = (Inl AccessDenied, demoFork)"
    using out by (simp_all add: o c v)
  have e: "contentOf (getContent (snd (put demoFork 0 7 ''README.md'' ''x'' ''edit'' None demoDigest2))
         None 0 ''README.md'' None) = Some ''x''"
    "map f_isDeleted (files (snd (remove demoFork 0 7 ''README.md'' ''edit'' None demoDigest2)))
       = [True, False]"
    "map b_name (branches (snd (createBranch demoFork 0 7 ''dev'' (Some ''main'') None)))
       = [''main'', ''feature'', ''dev'']"
    by (simp_all add: demoFork_eq demoProject_eq contentOf_def demo_defs model_defs)
  have a: "hasPermission (hd (projects demoFork)) 7 admin"
    using T o by simp
  show ?thesis using h o c v(1-7) d u e a by simp
qed

end
